theory Spec2Isabelle
  imports Complex_Main "HOL-Library.Word"
begin

section \<open>Scalars and faults\<close>

text \<open>
  The program computes with C++ \<open>float\<close>. The embedding idealises a finite float as a
  \<open>real\<close>: rounding and overflow are not modelled. A float division whose divisor is zero
  yields an infinity or a NaN, which is no real number; the embedding makes that visible
  as the fault \<open>DivisionByZero\<close>, and everything computed from such a value is that fault
  as well. Reading \<open>bodies[i]\<close> past the end of the vector is the fault \<open>OutOfRange\<close>.
\<close>

datatype fault = DivisionByZero | OutOfRange

definition fdiv :: "real \<Rightarrow> real \<Rightarrow> fault + real" where
  "fdiv a b = (if b = 0 then Inl DivisionByZero else Inr (a / b))"

text \<open>
  The product of two floats in \<open>main.cpp\<close>, where it is used as a divisor. The smallest
  positive \<open>float\<close> is 2 to the power -149; a product of magnitude at most half of it rounds to
  zero (IEEE binary32, round to nearest, ties to even). The rounding of larger products
  is not modelled.
\<close>

definition fmul :: "real \<Rightarrow> real \<Rightarrow> real" where
  "fmul a b = (if \<bar>a * b\<bar> \<le> 1 / 2 ^ 150 then 0 else a * b)"

section \<open>Vector2D\<close>

text \<open>
  Modelled from the spec: the class \<open>Vector2D\<close> of \<open>Vector2D.h\<close>, which is not among the
  sources. The spec describes it as a pair of floating-point components with arithmetic,
  magnitude and normalisation; the operators below are the component-wise ones that
  \<open>physics.h\<close> and \<open>main.cpp\<close> call.
\<close>

record Vector2D =
  vx :: real
  vy :: real

text \<open>Modelled from the spec: \<open>Vector2D::zero()\<close>, the zero vector.\<close>

definition zero :: Vector2D where
  "zero = \<lparr>vx = 0, vy = 0\<rparr>"

text \<open>
  Modelled from the spec: the default-constructed \<open>Vector2D()\<close>, which the three-argument
  constructor of \<open>PhysicsBody\<close> leaves in the member \<open>acceleration\<close>. A body that has
  received no force since its creation has no accumulated acceleration.
\<close>

definition Vector2D_default :: Vector2D where
  "Vector2D_default = zero"

text \<open>Modelled from the spec: \<open>operator+\<close> (and \<open>+=\<close>), component-wise.\<close>

definition vadd :: "Vector2D \<Rightarrow> Vector2D \<Rightarrow> Vector2D" where
  "vadd a b = \<lparr>vx = vx a + vx b, vy = vy a + vy b\<rparr>"

text \<open>Modelled from the spec: binary \<open>operator-\<close>, component-wise.\<close>

definition vsub :: "Vector2D \<Rightarrow> Vector2D \<Rightarrow> Vector2D" where
  "vsub a b = \<lparr>vx = vx a - vx b, vy = vy a - vy b\<rparr>"

text \<open>Modelled from the spec: unary \<open>operator-\<close>.\<close>

definition vneg :: "Vector2D \<Rightarrow> Vector2D" where
  "vneg a = \<lparr>vx = - vx a, vy = - vy a\<rparr>"

text \<open>Modelled from the spec: \<open>operator*(float)\<close>, scaling both components.\<close>

definition vscale :: "Vector2D \<Rightarrow> real \<Rightarrow> Vector2D" where
  "vscale a s = \<lparr>vx = vx a * s, vy = vy a * s\<rparr>"

text \<open>Modelled from the spec: \<open>operator/(float)\<close>, dividing both components.\<close>

definition vdiv :: "Vector2D \<Rightarrow> real \<Rightarrow> fault + Vector2D" where
  "vdiv a s = (if s = 0 then Inl DivisionByZero else Inr \<lparr>vx = vx a / s, vy = vy a / s\<rparr>)"

text \<open>Modelled from the spec: \<open>magnitude()\<close>, the Euclidean length.\<close>

definition magnitude :: "Vector2D \<Rightarrow> real" where
  "magnitude a = sqrt (vx a * vx a + vy a * vy a)"

text \<open>Modelled from the spec: \<open>normalized()\<close>, the vector divided by its magnitude.\<close>

definition normalized :: "Vector2D \<Rightarrow> fault + Vector2D" where
  "normalized a = vdiv a (magnitude a)"

section \<open>PhysicsBody\<close>

record PhysicsBody =
  position :: Vector2D
  velocity :: Vector2D
  acceleration :: Vector2D
  mass :: real

text \<open>\<open>PhysicsBody()\<close>\<close>

definition PhysicsBody_default :: PhysicsBody where
  "PhysicsBody_default =
     \<lparr>position = zero, velocity = zero, acceleration = zero, mass = 1\<rparr>"

text \<open>
  \<open>PhysicsBody(Vector2D position, Vector2D velocity, float mass)\<close>: the three members
  are assigned, \<open>acceleration\<close> stays as default-constructed. No argument is checked.
\<close>

definition PhysicsBody_new :: "Vector2D \<Rightarrow> Vector2D \<Rightarrow> real \<Rightarrow> PhysicsBody" where
  "PhysicsBody_new p v m =
     \<lparr>position = p, velocity = v, acceleration = Vector2D_default, mass = m\<rparr>"

text \<open>
  \<open>PhysicsBody::update(float dt)\<close>: three assignments in sequence, each reading the
  members as the previous one left them.
\<close>

definition PhysicsBody_update :: "PhysicsBody \<Rightarrow> real \<Rightarrow> PhysicsBody" where
  "PhysicsBody_update b dt =
     (let b1 = b\<lparr>velocity := vadd (velocity b) (vscale (acceleration b) dt)\<rparr>;
          b2 = b1\<lparr>position := vadd (position b1) (vscale (velocity b1) dt)\<rparr>
      in b2\<lparr>acceleration := zero\<rparr>)"

text \<open>\<open>PhysicsBody::applyForce(Vector2D force)\<close>: \<open>acceleration += force / mass\<close>.\<close>

definition applyForce :: "PhysicsBody \<Rightarrow> Vector2D \<Rightarrow> fault + PhysicsBody" where
  "applyForce b force =
     (case vdiv force (mass b) of
        Inl e \<Rightarrow> Inl e
      | Inr a \<Rightarrow> Inr (b\<lparr>acceleration := vadd (acceleration b) a\<rparr>))"

text \<open>
  \<open>PhysicsBody::applyAcceleration(Vector2D acceleration)\<close>: the parameter has the name of
  the member and hides it, so \<open>acceleration += acceleration\<close> doubles the parameter, a
  local copy that is dropped on return. The pair below is (the object, the parameter).
\<close>

definition applyAcceleration :: "PhysicsBody \<Rightarrow> Vector2D \<Rightarrow> PhysicsBody" where
  "applyAcceleration b acceleration_param =
     fst (b, vadd acceleration_param acceleration_param)"

definition setMass :: "PhysicsBody \<Rightarrow> real \<Rightarrow> PhysicsBody" where
  "setMass b m = b\<lparr>mass := m\<rparr>"

definition getMass :: "PhysicsBody \<Rightarrow> real" where
  "getMass b = mass b"

definition setVelocity :: "PhysicsBody \<Rightarrow> Vector2D \<Rightarrow> PhysicsBody" where
  "setVelocity b v = b\<lparr>velocity := v\<rparr>"

definition getVelocity :: "PhysicsBody \<Rightarrow> Vector2D" where
  "getVelocity b = velocity b"

definition setPosition :: "PhysicsBody \<Rightarrow> Vector2D \<Rightarrow> PhysicsBody" where
  "setPosition b p = b\<lparr>position := p\<rparr>"

definition getPosition :: "PhysicsBody \<Rightarrow> Vector2D" where
  "getPosition b = position b"

definition getAcceleration :: "PhysicsBody \<Rightarrow> Vector2D" where
  "getAcceleration b = acceleration b"

text \<open>\<open>PhysicsBody::clone()\<close>: \<open>return PhysicsBody(position, velocity, mass)\<close>.\<close>

definition PhysicsBody_clone :: "PhysicsBody \<Rightarrow> PhysicsBody" where
  "PhysicsBody_clone b = PhysicsBody_new (position b) (velocity b) (mass b)"

section \<open>PhysicsWorld\<close>

text \<open>
  \<open>int ticks\<close> is a 32-bit machine integer: a \<open>32 word\<close>, read as two's complement by
  \<open>sint\<close>. \<open>std::vector<PhysicsBody>\<close> holds its elements by value: a list.
\<close>

record PhysicsWorld =
  ticks :: "32 word"
  bodies :: "PhysicsBody list"

text \<open>\<open>PhysicsWorld()\<close>\<close>

definition PhysicsWorld_new :: PhysicsWorld where
  "PhysicsWorld_new = \<lparr>ticks = 0, bodies = []\<rparr>"

text \<open>\<open>addBody(PhysicsBody body)\<close>: \<open>bodies.push_back(body)\<close>.\<close>

definition addBody :: "PhysicsWorld \<Rightarrow> PhysicsBody \<Rightarrow> PhysicsWorld" where
  "addBody w body = w\<lparr>bodies := bodies w @ [body]\<rparr>"

text \<open>\<open>bodies.erase(bodies.begin() + i)\<close>\<close>

definition erase :: "'a list \<Rightarrow> nat \<Rightarrow> 'a list" where
  "erase xs i = take i xs @ drop (Suc i) xs"

text \<open>The loop of \<open>PhysicsWorld::update\<close>: \<open>bodies[i].update(dt)\<close> for \<open>i\<close> from 0.\<close>

function update_loop :: "PhysicsBody list \<Rightarrow> real \<Rightarrow> nat \<Rightarrow> PhysicsBody list" where
  "update_loop bs dt i =
     (if i < length bs
      then update_loop (bs[i := PhysicsBody_update (bs ! i) dt]) dt (i + 1)
      else bs)"
  by pat_completeness auto
termination
  by (relation "measure (\<lambda>(bs, dt, i). length bs - i)") auto

declare update_loop.simps [simp del]

text \<open>
  \<open>PhysicsWorld::update(float dt)\<close>: \<open>++ticks\<close>, then the loop. At the largest \<open>int\<close> the
  increment overflows, which C++ leaves undefined; the word addition wraps, as the
  machine's addition does.
\<close>

definition PhysicsWorld_update :: "PhysicsWorld \<Rightarrow> real \<Rightarrow> PhysicsWorld" where
  "PhysicsWorld_update w dt =
     (let w1 = w\<lparr>ticks := ticks w + 1\<rparr>
      in w1\<lparr>bodies := update_loop (bodies w1) dt 0\<rparr>)"

text \<open>The loop of \<open>PhysicsWorld::clone\<close>: \<open>world.addBody(bodies[i].clone())\<close>.\<close>

function clone_loop :: "PhysicsBody list \<Rightarrow> PhysicsWorld \<Rightarrow> nat \<Rightarrow> PhysicsWorld" where
  "clone_loop bs world i =
     (if i < length bs
      then clone_loop bs (addBody world (PhysicsBody_clone (bs ! i))) (i + 1)
      else world)"
  by pat_completeness auto
termination
  by (relation "measure (\<lambda>(bs, world, i). length bs - i)") auto

declare clone_loop.simps [simp del]

text \<open>\<open>PhysicsWorld::clone()\<close>\<close>

definition PhysicsWorld_clone :: "PhysicsWorld \<Rightarrow> PhysicsWorld" where
  "PhysicsWorld_clone w =
     (let world = PhysicsWorld_new\<lparr>ticks := ticks w\<rparr>
      in clone_loop (bodies w) world 0)"

section \<open>The pairwise force law\<close>

text \<open>
  Lines 91 to 94 of \<open>applyGravitationalForces\<close>: the force on \<open>body1\<close> from \<open>body2\<close>.
  The magnitude of the separation is squared, a product of two floats, and divided into
  \<open>strength\<close> as it is.
\<close>

definition pairForce :: "real \<Rightarrow> PhysicsBody \<Rightarrow> PhysicsBody \<Rightarrow> fault + Vector2D" where
  "pairForce strength body1 body2 =
     (let distance = vsub (getPosition body2) (getPosition body1);
          distanceMagnitude = magnitude distance
      in case fdiv strength (fmul distanceMagnitude distanceMagnitude) of
           Inl e \<Rightarrow> Inl e
         | Inr forceMagnitude \<Rightarrow>
             (case normalized distance of
                Inl e \<Rightarrow> Inl e
              | Inr n \<Rightarrow> Inr (vscale n forceMagnitude)))"

text \<open>Lines 95 and 96: \<open>body1.applyForce(force); body2.applyForce(-force);\<close>\<close>

definition applyPair ::
  "PhysicsBody \<Rightarrow> PhysicsBody \<Rightarrow> Vector2D \<Rightarrow> fault + PhysicsBody \<times> PhysicsBody" where
  "applyPair body1 body2 force =
     (case applyForce body1 force of
        Inl e \<Rightarrow> Inl e
      | Inr b1 \<Rightarrow>
          (case applyForce body2 (vneg force) of
             Inl e \<Rightarrow> Inl e
           | Inr b2 \<Rightarrow> Inr (b1, b2)))"

text \<open>
  The body of the inner loop: \<open>body1\<close> and \<open>body2\<close> are references to \<open>bodies[i]\<close> and
  \<open>bodies[j]\<close>, so both elements are written back.
\<close>

definition gravity_pair ::
  "real \<Rightarrow> PhysicsBody list \<Rightarrow> nat \<Rightarrow> nat \<Rightarrow> fault + PhysicsBody list" where
  "gravity_pair strength bs i j =
     (case pairForce strength (bs ! i) (bs ! j) of
        Inl e \<Rightarrow> Inl e
      | Inr force \<Rightarrow>
          (case applyPair (bs ! i) (bs ! j) force of
             Inl e \<Rightarrow> Inl e
           | Inr (b1, b2) \<Rightarrow> Inr (bs[i := b1, j := b2])))"

lemma length_gravity_pair: "gravity_pair strength bs i j = Inr bs' \<Longrightarrow> length bs' = length bs"
  by (auto simp: gravity_pair_def split: sum.splits prod.splits)

text \<open>The inner loop: \<open>for (int j = i + 1; j < world.bodies.size(); j++)\<close>.\<close>

function gravity_inner ::
  "real \<Rightarrow> PhysicsBody list \<Rightarrow> nat \<Rightarrow> nat \<Rightarrow> fault + PhysicsBody list" where
  "gravity_inner strength bs i j =
     (if j < length bs
      then (case gravity_pair strength bs i j of
              Inl e \<Rightarrow> Inl e
            | Inr bs' \<Rightarrow> gravity_inner strength bs' i (j + 1))
      else Inr bs)"
  by pat_completeness auto
termination
  by (relation "measure (\<lambda>(strength, bs, i, j). length bs - j)")
     (auto dest: length_gravity_pair)

declare gravity_inner.simps [simp del]

lemma length_gravity_inner:
  "gravity_inner strength bs i j = Inr bs' \<Longrightarrow> length bs' = length bs"
proof (induction strength bs i j arbitrary: bs' rule: gravity_inner.induct)
  case (1 strength bs i j)
  show ?case
  proof (cases "j < length bs")
    case True
    then obtain bs1 where p: "gravity_pair strength bs i j = Inr bs1"
      and r: "gravity_inner strength bs1 i (j + 1) = Inr bs'"
      using "1.prems" by (subst (asm) gravity_inner.simps) (auto split: sum.splits)
    from "1.IH" [OF True p r] length_gravity_pair [OF p] show ?thesis by simp
  next
    case False
    then show ?thesis
      using "1.prems" by (subst (asm) gravity_inner.simps) simp
  qed
qed

text \<open>The outer loop: \<open>for (int i = 0; i < world.bodies.size(); i++)\<close>.\<close>

function gravity_outer :: "real \<Rightarrow> PhysicsBody list \<Rightarrow> nat \<Rightarrow> fault + PhysicsBody list" where
  "gravity_outer strength bs i =
     (if i < length bs
      then (case gravity_inner strength bs i (i + 1) of
              Inl e \<Rightarrow> Inl e
            | Inr bs' \<Rightarrow> gravity_outer strength bs' (i + 1))
      else Inr bs)"
  by pat_completeness auto
termination
  by (relation "measure (\<lambda>(strength, bs, i). length bs - i)")
     (auto dest: length_gravity_inner)

declare gravity_outer.simps [simp del]

text \<open>\<open>applyGravitationalForces(float strength, PhysicsWorld &world)\<close>\<close>

definition applyGravitationalForces :: "real \<Rightarrow> PhysicsWorld \<Rightarrow> fault + PhysicsWorld" where
  "applyGravitationalForces strength world =
     (case gravity_outer strength (bodies world) 0 of
        Inl e \<Rightarrow> Inl e
      | Inr bs \<Rightarrow> Inr (world\<lparr>bodies := bs\<rparr>))"

text \<open>\<open>#define GRAVITATIONAL_CONSTANT 66700000\<close>\<close>

definition GRAVITATIONAL_CONSTANT :: real where
  "GRAVITATIONAL_CONSTANT = 66700000"

text \<open>What \<open>applyForce\<close> adds to the acceleration of a body of mass \<open>m\<close>: \<open>force / m\<close>.\<close>

definition accel_of :: "Vector2D \<Rightarrow> real \<Rightarrow> Vector2D" where
  "accel_of force m = \<lparr>vx = vx force / m, vy = vy force / m\<rparr>"

text \<open>The force of a pair, where \<open>pairForce\<close> computes one.\<close>

definition pair_force :: "real \<Rightarrow> PhysicsBody \<Rightarrow> PhysicsBody \<Rightarrow> Vector2D" where
  "pair_force strength body1 body2 =
     (case pairForce strength body1 body2 of Inl e \<Rightarrow> zero | Inr force \<Rightarrow> force)"

text \<open>
  What body \<open>k\<close> receives on account of body \<open>j\<close>: as the first body of the pair \<open>(k, j)\<close>
  the force of that pair, as the second body of the pair \<open>(j, k)\<close> the negation of the
  force of that pair; in both cases divided by the mass of body \<open>k\<close>.
\<close>

definition contribution :: "real \<Rightarrow> PhysicsBody list \<Rightarrow> nat \<Rightarrow> nat \<Rightarrow> Vector2D" where
  "contribution strength bs k j =
     (if k < j then accel_of (pair_force strength (bs ! k) (bs ! j)) (mass (bs ! k))
      else accel_of (vneg (pair_force strength (bs ! j) (bs ! k))) (mass (bs ! k)))"

section \<open>The trajectory forecast of the main loop\<close>

text \<open>
  Lines 142 and 143 of \<open>main\<close>, on \<open>world_copy\<close>: the step size is 20 divided by the
  speed of \<open>bodies[1]\<close>; the world is updated with it, and then the forces are applied.
\<close>

definition predict_step :: "PhysicsWorld \<Rightarrow> fault + PhysicsWorld" where
  "predict_step world_copy =
     (if length (bodies world_copy) \<le> 1 then Inl OutOfRange
      else case fdiv 20 (magnitude (getVelocity (bodies world_copy ! 1))) of
             Inl e \<Rightarrow> Inl e
           | Inr dt \<Rightarrow>
               applyGravitationalForces GRAVITATIONAL_CONSTANT (PhysicsWorld_update world_copy dt))"

text \<open>
  Lines 142 to 144: one pass of the loop, on \<open>world_copy\<close> and the points of
  \<open>trajectoryDrawable1\<close>.
\<close>

definition predict_iteration ::
  "PhysicsWorld \<times> Vector2D list \<Rightarrow> fault + PhysicsWorld \<times> Vector2D list" where
  "predict_iteration s =
     (case predict_step (fst s) of
        Inl e \<Rightarrow> Inl e
      | Inr world_copy \<Rightarrow>
          (if length (bodies world_copy) \<le> 1 then Inl OutOfRange
           else Inr (world_copy, snd s @ [getPosition (bodies world_copy ! 1)])))"

text \<open>\<open>for (int i=0; i<100; i++)\<close>, with the bound 100 as the argument \<open>horizon\<close>.\<close>

function predict_loop ::
  "nat \<Rightarrow> nat \<Rightarrow> PhysicsWorld \<times> Vector2D list \<Rightarrow> fault + PhysicsWorld \<times> Vector2D list" where
  "predict_loop horizon i s =
     (if i < horizon
      then (case predict_iteration s of
              Inl e \<Rightarrow> Inl e
            | Inr s' \<Rightarrow> predict_loop horizon (i + 1) s')
      else Inr s)"
  by pat_completeness auto
termination
  by (relation "measure (\<lambda>(horizon, i, s). horizon - i)") auto

declare predict_loop.simps [simp del]

text \<open>
  Lines 139 to 145: the points are cleared, the world is cloned, and the loop runs.
\<close>

definition predict :: "nat \<Rightarrow> PhysicsWorld \<Rightarrow> fault + PhysicsWorld \<times> Vector2D list" where
  "predict horizon world = predict_loop horizon 0 (PhysicsWorld_clone world, [])"

text \<open>The world after \<open>k\<close> passes of the loop.\<close>

fun predict_steps :: "nat \<Rightarrow> PhysicsWorld \<Rightarrow> fault + PhysicsWorld" where
  "predict_steps 0 w = Inr w"
| "predict_steps (Suc k) w =
     (case predict_steps k w of Inl e \<Rightarrow> Inl e | Inr w' \<Rightarrow> predict_step w')"

text \<open>
  The pass of the loop in the order of the specification's wording, for comparison with
  \<open>predict_step\<close>: the step size, then the force law, then the step.
\<close>

definition predict_step_as_specified :: "PhysicsWorld \<Rightarrow> fault + PhysicsWorld" where
  "predict_step_as_specified world_copy =
     (if length (bodies world_copy) \<le> 1 then Inl OutOfRange
      else case fdiv 20 (magnitude (getVelocity (bodies world_copy ! 1))) of
             Inl e \<Rightarrow> Inl e
           | Inr dt \<Rightarrow>
               (case applyGravitationalForces GRAVITATIONAL_CONSTANT world_copy of
                  Inl e \<Rightarrow> Inl e
                | Inr w \<Rightarrow> Inr (PhysicsWorld_update w dt)))"

section \<open>Changes to a world in place\<close>

text \<open>\<open>world.bodies[i].f(...)\<close>, for a member function \<open>f\<close> of \<open>PhysicsBody\<close>.\<close>

definition at_body :: "nat \<Rightarrow> (PhysicsBody \<Rightarrow> PhysicsBody) \<Rightarrow> PhysicsWorld \<Rightarrow> fault + PhysicsWorld" where
  "at_body i f w =
     (if i < length (bodies w) then Inr (w\<lparr>bodies := (bodies w)[i := f (bodies w ! i)]\<rparr>)
      else Inl OutOfRange)"

text \<open>
  The calls that change a world without changing the number of its bodies:
  \<open>bodies[i].setPosition(p)\<close>, \<open>bodies[i].setVelocity(v)\<close>, \<open>bodies[i].setMass(m)\<close>,
  \<open>update(dt)\<close>, \<open>applyGravitationalForces(strength, world)\<close> and one pass of the forecast
  loop.
\<close>

datatype action =
  SetPosition nat Vector2D
| SetVelocity nat Vector2D
| SetMass nat real
| Update real
| Gravity real
| PredictStep

fun action_sem :: "action \<Rightarrow> PhysicsWorld \<Rightarrow> fault + PhysicsWorld" where
  "action_sem (SetPosition i p) w = at_body i (\<lambda>b. setPosition b p) w"
| "action_sem (SetVelocity i v) w = at_body i (\<lambda>b. setVelocity b v) w"
| "action_sem (SetMass i m) w = at_body i (\<lambda>b. setMass b m) w"
| "action_sem (Update dt) w = Inr (PhysicsWorld_update w dt)"
| "action_sem (Gravity strength) w = applyGravitationalForces strength w"
| "action_sem PredictStep w = predict_step w"

text \<open>A sequence of such calls on one world; after a fault the world stays faulty.\<close>

fun run_actions :: "action list \<Rightarrow> fault + PhysicsWorld \<Rightarrow> fault + PhysicsWorld" where
  "run_actions [] r = r"
| "run_actions (a # as) r =
     run_actions as (case r of Inl e \<Rightarrow> Inl e | Inr w \<Rightarrow> action_sem a w)"

section \<open>Objects in memory\<close>

text \<open>
  To tell which object a piece of storage belongs to, the bodies live in a memory of
  cells. Addresses are handed out in increasing order and never reused,
  so two objects that are alive at the same time have different addresses. A cell holds a
  body, or the fault that spoiled it.
\<close>

type_synonym addr = nat

datatype cell = Body PhysicsBody | Poison fault

record memory =
  next_free :: addr
  cells :: "addr \<Rightarrow> cell option"

text \<open>A new object, constructed as a copy of \<open>b\<close>: the memory after, and its address.\<close>

definition alloc :: "memory \<Rightarrow> PhysicsBody \<Rightarrow> memory \<times> addr" where
  "alloc m b =
     (m\<lparr>next_free := next_free m + 1, cells := (cells m)(next_free m \<mapsto> Body b)\<rparr>, next_free m)"

text \<open>
  A \<open>PhysicsWorld\<close> object: \<open>ticks\<close> by value, and the vector \<open>bodies\<close> as the addresses of
  its elements in order, so that \<open>&bodies[i]\<close> is \<open>obj_bodies w ! i\<close>. (When a vector
  grows it may move its elements to new storage of its own; the embedding keeps the
  cell of an element, which belongs to this vector alone either way.)
\<close>

record PhysicsWorld_obj =
  obj_ticks :: "32 word"
  obj_bodies :: "addr list"

text \<open>\<open>PhysicsWorld()\<close>\<close>

definition PhysicsWorld_obj_new :: PhysicsWorld_obj where
  "PhysicsWorld_obj_new = \<lparr>obj_ticks = 0, obj_bodies = []\<rparr>"

text \<open>The bodies stored at a list of addresses.\<close>

fun load :: "memory \<Rightarrow> addr list \<Rightarrow> fault + PhysicsBody list" where
  "load m [] = Inr []"
| "load m (a # as) =
     (case cells m a of
        None \<Rightarrow> Inl OutOfRange
      | Some (Poison e) \<Rightarrow> Inl e
      | Some (Body b) \<Rightarrow>
          (case load m as of Inl e \<Rightarrow> Inl e | Inr bs \<Rightarrow> Inr (b # bs)))"

text \<open>Writing cells at a list of addresses.\<close>

definition store_cells :: "memory \<Rightarrow> addr list \<Rightarrow> cell list \<Rightarrow> memory" where
  "store_cells m as cs = m\<lparr>cells := cells m ++ map_of (zip as cs)\<rparr>"

text \<open>
  \<open>addBody(PhysicsBody body)\<close>: \<open>bodies.push_back(body)\<close> constructs a new element, a copy
  of \<open>body\<close>, in storage of the vector.
\<close>

definition obj_addBody ::
  "memory \<times> PhysicsWorld_obj \<Rightarrow> PhysicsBody \<Rightarrow> memory \<times> PhysicsWorld_obj" where
  "obj_addBody mw body =
     (case alloc (fst mw) body of
        (m, a) \<Rightarrow> (m, (snd mw)\<lparr>obj_bodies := obj_bodies (snd mw) @ [a]\<rparr>))"

text \<open>
  The loop of \<open>removeBody\<close>: \<open>if (&bodies[i] == &body) { bodies.erase(bodies.begin() + i);
  return; }\<close>, where \<open>param\<close> is the address of the parameter \<open>body\<close>. The value of \<open>body\<close>
  is never read.
\<close>

function obj_removeBody_loop :: "addr \<Rightarrow> PhysicsWorld_obj \<Rightarrow> nat \<Rightarrow> PhysicsWorld_obj" where
  "obj_removeBody_loop param w i =
     (if i < length (obj_bodies w)
      then (if obj_bodies w ! i = param
            then w\<lparr>obj_bodies := erase (obj_bodies w) i\<rparr>
            else obj_removeBody_loop param w (i + 1))
      else w)"
  by pat_completeness auto
termination
  by (relation "measure (\<lambda>(param, w, i). length (obj_bodies w) - i)") auto

declare obj_removeBody_loop.simps [simp del]

text \<open>
  \<open>removeBody(PhysicsBody body)\<close>: the parameter is passed by value, so the call
  constructs it as a new object, a copy of the argument, and the loop compares with the
  address of that object.
\<close>

definition obj_removeBody ::
  "memory \<times> PhysicsWorld_obj \<Rightarrow> PhysicsBody \<Rightarrow> memory \<times> PhysicsWorld_obj" where
  "obj_removeBody mw body =
     (case alloc (fst mw) body of
        (m, param) \<Rightarrow> (m, obj_removeBody_loop param (snd mw) 0))"

text \<open>
  The loop of \<open>clone\<close>, \<open>world.addBody(bodies[i].clone())\<close>, where \<open>bs\<close> are the bodies of
  the world that is cloned.
\<close>

function obj_clone_loop ::
  "PhysicsBody list \<Rightarrow> memory \<times> PhysicsWorld_obj \<Rightarrow> nat \<Rightarrow> memory \<times> PhysicsWorld_obj" where
  "obj_clone_loop bs mw i =
     (if i < length bs
      then obj_clone_loop bs (obj_addBody mw (PhysicsBody_clone (bs ! i))) (i + 1)
      else mw)"
  by pat_completeness auto
termination
  by (relation "measure (\<lambda>(bs, mw, i). length bs - i)") auto

declare obj_clone_loop.simps [simp del]

text \<open>
  \<open>PhysicsWorld::clone()\<close>, on a world with the tick and the bodies of \<open>w\<close>: the local
  \<open>world\<close> is constructed empty, takes the tick, and receives by \<open>addBody\<close> a clone of
  every body. It is returned by value; the vector of the object that receives it owns
  the elements that the loop constructed, or copies of them.
\<close>

definition obj_clone :: "memory \<Rightarrow> PhysicsWorld \<Rightarrow> memory \<times> PhysicsWorld_obj" where
  "obj_clone m w =
     (let world = PhysicsWorld_obj_new\<lparr>obj_ticks := ticks w\<rparr>
      in obj_clone_loop (bodies w) (m, world) 0)"

text \<open>
  The state of \<open>main\<close>: the memory and its two worlds, \<open>world\<close> and \<open>world_copy\<close>. A
  variable whose world has taken up an infinity or a NaN holds the fault instead.
\<close>

datatype var = Live | Copy

record state =
  mem :: memory
  vars :: "var \<Rightarrow> fault + PhysicsWorld_obj"

text \<open>The world of a variable as a value: its tick and the bodies in its cells.\<close>

definition view :: "state \<Rightarrow> var \<Rightarrow> fault + PhysicsWorld" where
  "view s v =
     (case vars s v of
        Inl e \<Rightarrow> Inl e
      | Inr w \<Rightarrow>
          (case load (mem s) (obj_bodies w) of
             Inl e \<Rightarrow> Inl e
           | Inr bs \<Rightarrow> Inr \<lparr>ticks = obj_ticks w, bodies = bs\<rparr>))"

text \<open>The addresses of the elements of a variable's vector.\<close>

definition elems :: "state \<Rightarrow> var \<Rightarrow> addr list" where
  "elems s v = (case vars s v of Inl e \<Rightarrow> [] | Inr w \<Rightarrow> obj_bodies w)"

text \<open>
  The statements of \<open>main\<close> on its worlds: \<open>v.addBody(b)\<close>, \<open>v.removeBody(b)\<close>, a change in
  place through \<open>v\<close>, and \<open>world_copy = world.clone()\<close>. A change in place writes the cells
  of the vector of \<open>v\<close>; where it faults, those cells are spoiled.
\<close>

datatype stmt = AddBody var PhysicsBody | RemoveBody var PhysicsBody | Act var action | Clone

fun target :: "stmt \<Rightarrow> var" where
  "target (AddBody v b) = v"
| "target (RemoveBody v b) = v"
| "target (Act v a) = v"
| "target Clone = Copy"

fun run_stmt :: "stmt \<Rightarrow> state \<Rightarrow> state" where
  "run_stmt (AddBody v b) s =
     (case vars s v of
        Inl e \<Rightarrow> s
      | Inr w \<Rightarrow>
          (case obj_addBody (mem s, w) b of
             (m, w') \<Rightarrow> s\<lparr>mem := m, vars := (vars s)(v := Inr w')\<rparr>))"
| "run_stmt (RemoveBody v b) s =
     (case vars s v of
        Inl e \<Rightarrow> s
      | Inr w \<Rightarrow>
          (case obj_removeBody (mem s, w) b of
             (m, w') \<Rightarrow> s\<lparr>mem := m, vars := (vars s)(v := Inr w')\<rparr>))"
| "run_stmt (Act v a) s =
     (case vars s v of
        Inl e \<Rightarrow> s
      | Inr w \<Rightarrow>
          (case (case view s v of Inl e \<Rightarrow> Inl e | Inr x \<Rightarrow> action_sem a x) of
             Inl e \<Rightarrow>
               s\<lparr>mem := store_cells (mem s) (obj_bodies w)
                          (replicate (length (obj_bodies w)) (Poison e)),
                 vars := (vars s)(v := Inl e)\<rparr>
           | Inr x' \<Rightarrow>
               s\<lparr>mem := store_cells (mem s) (obj_bodies w) (map Body (bodies x')),
                 vars := (vars s)(v := Inr (w\<lparr>obj_ticks := ticks x'\<rparr>))\<rparr>))"
| "run_stmt Clone s =
     (case view s Live of
        Inl e \<Rightarrow> s\<lparr>vars := (vars s)(Copy := Inl e)\<rparr>
      | Inr x \<Rightarrow>
          (case obj_clone (mem s) x of
             (m, w') \<Rightarrow> s\<lparr>mem := m, vars := (vars s)(Copy := Inr w')\<rparr>))"

fun run_stmts :: "stmt list \<Rightarrow> state \<Rightarrow> state" where
  "run_stmts [] s = s"
| "run_stmts (c # cs) s = run_stmts cs (run_stmt c s)"

text \<open>\<open>main\<close> starts with an empty memory and empty worlds.\<close>

definition init :: state where
  "init = \<lparr>mem = \<lparr>next_free = 0, cells = Map.empty\<rparr>, vars = (\<lambda>v. Inr PhysicsWorld_obj_new)\<rparr>"

text \<open>The states that \<open>main\<close> can be in: those its statements lead to.\<close>

inductive reachable :: "state \<Rightarrow> bool" where
  reachable_init: "reachable init"
| reachable_step: "reachable s \<Longrightarrow> reachable (run_stmt c s)"

text \<open>
  The discipline of the allocator as a property of a state: the elements of a vector are
  distinct allocated cells that hold bodies, and the two vectors have no element in
  common.
\<close>

definition well_formed :: "state \<Rightarrow> bool" where
  "well_formed s \<longleftrightarrow>
     (\<forall>v w. vars s v = Inr w \<longrightarrow>
        distinct (obj_bodies w)
        \<and> (\<forall>a \<in> set (obj_bodies w).
              a < next_free (mem s) \<and> (\<exists>b. cells (mem s) a = Some (Body b))))
     \<and> set (elems s Live) \<inter> set (elems s Copy) = {}"

text \<open>
  What a statement on the vector of \<open>t\<close> may do to a state: the other variable keeps its
  object; no cell is freed; an allocated cell outside the vector of \<open>t\<close> keeps its
  content; and the elements of the vector of \<open>t\<close> afterwards are distinct cells holding
  bodies, each an element of that vector before or newly allocated.
\<close>

definition confined :: "var \<Rightarrow> state \<Rightarrow> state \<Rightarrow> bool" where
  "confined t s s' \<longleftrightarrow>
     (\<forall>v'. v' \<noteq> t \<longrightarrow> vars s' v' = vars s v')
     \<and> next_free (mem s) \<le> next_free (mem s')
     \<and> (\<forall>a. a \<notin> set (elems s t) \<and> a < next_free (mem s) \<longrightarrow>
           cells (mem s') a = cells (mem s) a)
     \<and> (\<forall>w'. vars s' t = Inr w' \<longrightarrow>
           distinct (obj_bodies w')
           \<and> (\<forall>a \<in> set (obj_bodies w').
                 (a \<in> set (elems s t) \<or> next_free (mem s) \<le> a)
                 \<and> a < next_free (mem s')
                 \<and> (\<exists>b. cells (mem s') a = Some (Body b))))"

section \<open>Frame2D\<close>

text \<open>
  Modelled from the spec: the class \<open>Frame2D\<close> of \<open>Frame2D.h\<close>, which is not among the
  sources; \<open>main.cpp\<close> constructs frames as \<open>Frame2D(parent, position, rotation, scale)\<close>
  with \<open>NULL\<close> for no parent. A frame whose parent is given by value is a finite chain
  without a cycle.
\<close>

datatype Frame2D =
  Frame2D (frame_parent: "Frame2D option") (frame_position: Vector2D)
    (frame_rotation: real) (frame_scale: Vector2D)

text \<open>Modelled from the spec: the scaling of a point by a frame's scale, per component.\<close>

definition scale_by :: "Vector2D \<Rightarrow> Vector2D \<Rightarrow> Vector2D" where
  "scale_by p sc = \<lparr>vx = vx p * vx sc, vy = vy p * vy sc\<rparr>"

text \<open>Modelled from the spec: the inverse scaling, a division per component.\<close>

definition unscale_by :: "Vector2D \<Rightarrow> Vector2D \<Rightarrow> fault + Vector2D" where
  "unscale_by p sc =
     (if vx sc = 0 \<or> vy sc = 0 then Inl DivisionByZero
      else Inr \<lparr>vx = vx p / vx sc, vy = vy p / vy sc\<rparr>)"

text \<open>Modelled from the spec: the rotation of a point about the origin by an angle.\<close>

definition rotate :: "Vector2D \<Rightarrow> real \<Rightarrow> Vector2D" where
  "rotate p a = \<lparr>vx = vx p * cos a - vy p * sin a, vy = vx p * sin a + vy p * cos a\<rparr>"

text \<open>
  Modelled from the spec: \<open>toGlobal\<close> (\<open>getGlobalCoordinates\<close> in \<open>graphics.h\<close>'s callers):
  the frame's scale, then its rotation, then its translation, and then the parent's
  conversion, if there is a parent.
\<close>

fun getGlobalCoordinates :: "Frame2D \<Rightarrow> Vector2D \<Rightarrow> Vector2D" where
  "getGlobalCoordinates (Frame2D None pos rot sc) p = vadd (rotate (scale_by p sc) rot) pos"
| "getGlobalCoordinates (Frame2D (Some f) pos rot sc) p =
     getGlobalCoordinates f (vadd (rotate (scale_by p sc) rot) pos)"

text \<open>
  Modelled from the spec: \<open>toLocal\<close> (\<open>getLocalCoordinates\<close>): from the root down to the
  frame, at each level the inverse translation, the inverse rotation and the inverse
  scaling.
\<close>

fun getLocalCoordinates :: "Frame2D \<Rightarrow> Vector2D \<Rightarrow> fault + Vector2D" where
  "getLocalCoordinates (Frame2D None pos rot sc) g = unscale_by (rotate (vsub g pos) (- rot)) sc"
| "getLocalCoordinates (Frame2D (Some f) pos rot sc) g =
     (case getLocalCoordinates f g of
        Inl e \<Rightarrow> Inl e
      | Inr q \<Rightarrow> unscale_by (rotate (vsub q pos) (- rot)) sc)"

text \<open>Every frame of the chain has a scale without a zero component.\<close>

fun nonzero_scales :: "Frame2D \<Rightarrow> bool" where
  "nonzero_scales (Frame2D None pos rot sc) = (vx sc \<noteq> 0 \<and> vy sc \<noteq> 0)"
| "nonzero_scales (Frame2D (Some f) pos rot sc) = (vx sc \<noteq> 0 \<and> vy sc \<noteq> 0 \<and> nonzero_scales f)"

text \<open>The number of frames of a chain.\<close>

fun depth :: "Frame2D \<Rightarrow> nat" where
  "depth (Frame2D None pos rot sc) = 1"
| "depth (Frame2D (Some f) pos rot sc) = Suc (depth f)"

section \<open>Integration of one body\<close>

lemma vscale_zero [simp]: "vscale zero s = zero"
  by (simp add: vscale_def zero_def)

lemma vadd_zero_right [simp]: "vadd a zero = a"
  by (simp add: vadd_def zero_def)

text \<open>
  C1. \<open>PhysicsBody::update\<close> adds \<open>acceleration * dt\<close> to the velocity, then adds the new
  velocity times \<open>dt\<close> to the position, then clears the acceleration, touching nothing
  else; a body whose accumulated acceleration is zero keeps its velocity and moves by
  \<open>velocity * dt\<close>.
\<close>

theorem PhysicsBody_update_semi_implicit:
  "velocity (PhysicsBody_update b dt) = vadd (velocity b) (vscale (acceleration b) dt)
   \<and> position (PhysicsBody_update b dt)
       = vadd (position b) (vscale (vadd (velocity b) (vscale (acceleration b) dt)) dt)
   \<and> acceleration (PhysicsBody_update b dt) = zero
   \<and> mass (PhysicsBody_update b dt) = mass b
   \<and> (acceleration b = zero \<longrightarrow>
        position (PhysicsBody_update b dt) = vadd (position b) (vscale (velocity b) dt)
        \<and> velocity (PhysicsBody_update b dt) = velocity b)"
  by (simp add: PhysicsBody_update_def Let_def)

theorem PhysicsBody_update_semi_implicit_witness:
  "acceleration (PhysicsBody_new \<lparr>vx = 320, vy = 60\<rparr> \<lparr>vx = - 400, vy = 0\<rparr> 1) = zero
   \<and> position (PhysicsBody_update
        (PhysicsBody_new \<lparr>vx = 320, vy = 60\<rparr> \<lparr>vx = - 400, vy = 0\<rparr> 1) (1 / 2))
       = \<lparr>vx = 120, vy = 60\<rparr>
   \<and> velocity (PhysicsBody_update
        (PhysicsBody_new \<lparr>vx = 320, vy = 60\<rparr> \<lparr>vx = - 400, vy = 0\<rparr> 1) (1 / 2))
       = \<lparr>vx = - 400, vy = 0\<rparr>"
  using PhysicsBody_update_semi_implicit
    [of "PhysicsBody_new \<lparr>vx = 320, vy = 60\<rparr> \<lparr>vx = - 400, vy = 0\<rparr> 1" "1 / 2"]
  by (simp add: PhysicsBody_new_def Vector2D_default_def zero_def vadd_def vscale_def)

section \<open>Stepping a world\<close>

lemma update_loop_eq:
  "update_loop bs dt i = take i bs @ map (\<lambda>b. PhysicsBody_update b dt) (drop i bs)"
proof (induction bs dt i rule: update_loop.induct)
  case (1 bs dt i)
  show ?case
  proof (cases "i < length bs")
    case True
    have "update_loop bs dt i
        = update_loop (bs[i := PhysicsBody_update (bs ! i) dt]) dt (i + 1)"
      using True by (subst update_loop.simps) simp
    also have "\<dots> = take (i + 1) (bs[i := PhysicsBody_update (bs ! i) dt])
        @ map (\<lambda>b. PhysicsBody_update b dt) (drop (i + 1) (bs[i := PhysicsBody_update (bs ! i) dt]))"
      using "1.IH" [OF True] .
    also have "\<dots> = take i bs @ map (\<lambda>b. PhysicsBody_update b dt) (drop i bs)"
      using True
      by (simp add: take_Suc_conv_app_nth Cons_nth_drop_Suc [OF True, symmetric])
    finally show ?thesis .
  next
    case False
    then show ?thesis by (subst update_loop.simps) simp
  qed
qed

lemma bodies_PhysicsWorld_update:
  "bodies (PhysicsWorld_update w dt) = map (\<lambda>b. PhysicsBody_update b dt) (bodies w)"
  by (simp add: PhysicsWorld_update_def Let_def update_loop_eq)

lemma ticks_PhysicsWorld_update: "ticks (PhysicsWorld_update w dt) = ticks w + 1"
  by (simp add: PhysicsWorld_update_def Let_def)

lemma sint_succ:
  fixes t :: "32 word"
  assumes "sint t < 2 ^ 31 - 1"
  shows "sint (t + 1) = sint t + 1"
proof -
  have lo: "- (2 ^ 31) \<le> sint t" using sint_ge [of t] by simp
  have "sint (t + 1) = signed_take_bit 31 (sint t + 1)"
    by (simp add: sint_word_ariths)
  also have "\<dots> = sint t + 1"
    using lo assms by (intro signed_take_bit_int_eq_self) simp_all
  finally show ?thesis .
qed

lemma ticks_foldl:
  "sint (ticks w) + int (length dts) < 2 ^ 31 \<Longrightarrow>
   sint (ticks (foldl PhysicsWorld_update w dts)) = sint (ticks w) + int (length dts)"
proof (induction dts arbitrary: w)
  case Nil
  then show ?case by simp
next
  case (Cons dt dts)
  have s: "sint (ticks (PhysicsWorld_update w dt)) = sint (ticks w) + 1"
    using Cons.prems by (simp add: ticks_PhysicsWorld_update sint_succ)
  have "sint (ticks (foldl PhysicsWorld_update (PhysicsWorld_update w dt) dts))
      = sint (ticks (PhysicsWorld_update w dt)) + int (length dts)"
    using Cons.prems s by (intro Cons.IH) simp
  then show ?case using s by simp
qed

text \<open>
  C2, as amended. One \<open>PhysicsWorld::update\<close> adds one to the 32-bit \<open>ticks\<close> and
  replaces every body, in its place in the vector, by its own \<open>PhysicsBody::update\<close>:
  the new state of a body depends on that body and \<open>dt\<close> alone, so no force between
  bodies is applied. Over every sequence of updates that stays within the range of \<open>int\<close>,
  the tick read as a signed number grows by the number of updates, so it never decreases.
\<close>

theorem PhysicsWorld_update_tick_then_bodies:
  "ticks (PhysicsWorld_update w dt) = ticks w + 1
   \<and> bodies (PhysicsWorld_update w dt) = map (\<lambda>b. PhysicsBody_update b dt) (bodies w)
   \<and> (sint (ticks w) + int (length dts) < 2 ^ 31 \<longrightarrow>
        sint (ticks (foldl PhysicsWorld_update w dts)) = sint (ticks w) + int (length dts)
        \<and> sint (ticks w) \<le> sint (ticks (foldl PhysicsWorld_update w dts)))"
  by (simp add: ticks_PhysicsWorld_update bodies_PhysicsWorld_update ticks_foldl)

theorem PhysicsWorld_update_tick_then_bodies_witness:
  "sint (ticks (addBody PhysicsWorld_new PhysicsBody_default))
     + int (length [1 / 2, 1 / 4 :: real]) < 2 ^ 31
   \<and> sint (ticks (foldl PhysicsWorld_update (addBody PhysicsWorld_new PhysicsBody_default)
        [1 / 2, 1 / 4])) = 2
   \<and> ticks (PhysicsWorld_update (addBody PhysicsWorld_new PhysicsBody_default) (1 / 2)) = 1
   \<and> bodies (PhysicsWorld_update (addBody PhysicsWorld_new PhysicsBody_default) (1 / 2))
       = [PhysicsBody_update PhysicsBody_default (1 / 2)]"
  using PhysicsWorld_update_tick_then_bodies
    [of "addBody PhysicsWorld_new PhysicsBody_default" "1 / 2" "[1 / 2, 1 / 4]"]
  by (simp add: addBody_def PhysicsWorld_new_def)

text \<open>
  C2 as stated fails: in a world whose tick is the largest \<open>int\<close>, one update takes the
  tick to the smallest \<open>int\<close>.
\<close>

theorem tick_overflow_counterexample:
  "sint (ticks \<lparr>ticks = 2147483647, bodies = [PhysicsBody_default]\<rparr>) = 2147483647
   \<and> sint (ticks (PhysicsWorld_update
        \<lparr>ticks = 2147483647, bodies = [PhysicsBody_default]\<rparr> (1 / 60))) = - 2147483648"
  by (simp add: ticks_PhysicsWorld_update)

section \<open>Construction, mass and acceleration\<close>

text \<open>
  C9, as amended. The constructor and \<open>setMass\<close> store the mass they are given, whatever
  its sign, and \<open>addBody\<close> appends the body it is given: nothing rejects a mass.
\<close>

theorem construction_accepts_any_mass:
  "mass (PhysicsBody_new p v m) = m
   \<and> mass (setMass b m) = m
   \<and> bodies (addBody w body) = bodies w @ [body]"
  by (simp add: PhysicsBody_new_def setMass_def addBody_def)

theorem construction_accepts_any_mass_witness:
  "mass (PhysicsBody_new zero zero (- 5)) = - 5
   \<and> mass (setMass PhysicsBody_default (- 5)) = - 5
   \<and> bodies (addBody PhysicsWorld_new (PhysicsBody_new zero zero (- 5)))
       = [PhysicsBody_new zero zero (- 5)]"
  using construction_accepts_any_mass [of zero zero "- 5" PhysicsBody_default PhysicsWorld_new
      "PhysicsBody_new zero zero (- 5)"]
  by (simp add: PhysicsWorld_new_def)

text \<open>
  C9 as stated fails: a body of mass \<open>- 5\<close> is constructed and added to a world, and
  \<open>setMass\<close> sets a mass of 0.
\<close>

theorem nonpositive_mass_counterexample:
  "mass (PhysicsBody_new zero zero (- 5)) \<le> 0
   \<and> mass (setMass PhysicsBody_default 0) \<le> 0
   \<and> bodies (addBody PhysicsWorld_new (PhysicsBody_new zero zero (- 5)))
       = [\<lparr>position = zero, velocity = zero, acceleration = zero, mass = - 5\<rparr>]"
  by (simp add: PhysicsBody_new_def setMass_def addBody_def PhysicsWorld_new_def
      Vector2D_default_def)

text \<open>
  C5. \<open>applyAcceleration\<close> is documented to add its argument to the body's acceleration.
  On the default body and the acceleration \<open>(0, 10)\<close> the sum would be \<open>(0, 10)\<close>; the
  body comes back unchanged, with the acceleration \<open>(0, 0)\<close>.
\<close>

theorem applyAcceleration_leaves_acceleration:
  "acceleration (applyAcceleration PhysicsBody_default \<lparr>vx = 0, vy = 10\<rparr>) = zero
   \<and> vadd (acceleration PhysicsBody_default) \<lparr>vx = 0, vy = 10\<rparr> = \<lparr>vx = 0, vy = 10\<rparr>
   \<and> applyAcceleration PhysicsBody_default \<lparr>vx = 0, vy = 10\<rparr> = PhysicsBody_default"
  by (simp add: applyAcceleration_def PhysicsBody_default_def vadd_def zero_def)

section \<open>The force between two bodies\<close>

lemma magnitude_horizontal: "magnitude \<lparr>vx = a, vy = 0\<rparr> = \<bar>a\<bar>"
  by (simp add: magnitude_def)

lemma magnitude_vertical: "magnitude \<lparr>vx = 0, vy = b\<rparr> = \<bar>b\<bar>"
  by (simp add: magnitude_def)

lemma magnitude_vneg [simp]: "magnitude (vneg a) = magnitude a"
  by (simp add: magnitude_def vneg_def)

lemma vsub_swap: "vsub a b = vneg (vsub b a)"
  by (simp add: vsub_def vneg_def)

lemma fmul_zero [simp]: "fmul 0 0 = 0"
  by (simp add: fmul_def)

lemma fmul_nonzero: "fmul r r \<noteq> 0 \<Longrightarrow> r \<noteq> 0"
  by (auto simp: fmul_def)

lemma pairForce_Inr:
  assumes "pairForce strength body1 body2 = Inr force"
  shows "fmul (magnitude (vsub (position body2) (position body1)))
              (magnitude (vsub (position body2) (position body1))) \<noteq> 0"
    and "force = vscale \<lparr>vx = vx (vsub (position body2) (position body1))
                                / magnitude (vsub (position body2) (position body1)),
                          vy = vy (vsub (position body2) (position body1))
                                / magnitude (vsub (position body2) (position body1))\<rparr>
                  (strength / fmul (magnitude (vsub (position body2) (position body1)))
                                   (magnitude (vsub (position body2) (position body1))))"
  using assms
  by (auto simp: pairForce_def Let_def fdiv_def normalized_def vdiv_def getPosition_def
      split: if_splits)

lemma pairForce_computes:
  assumes "fmul (magnitude (vsub (position body2) (position body1)))
              (magnitude (vsub (position body2) (position body1))) \<noteq> 0"
  shows "pairForce strength body1 body2
    = Inr (vscale \<lparr>vx = vx (vsub (position body2) (position body1))
                          / magnitude (vsub (position body2) (position body1)),
                    vy = vy (vsub (position body2) (position body1))
                          / magnitude (vsub (position body2) (position body1))\<rparr>
            (strength / fmul (magnitude (vsub (position body2) (position body1)))
                             (magnitude (vsub (position body2) (position body1)))))"
  using assms fmul_nonzero [OF assms]
  by (simp add: pairForce_def Let_def fdiv_def normalized_def vdiv_def getPosition_def)


lemma pairForce_fault: "pairForce strength body1 body2 = Inl e \<Longrightarrow> e = DivisionByZero"
  by (auto simp: pairForce_def Let_def fdiv_def normalized_def vdiv_def
      split: if_splits sum.splits)

lemma pairForce_positions:
  "position a = position a' \<Longrightarrow> position b = position b' \<Longrightarrow>
   pairForce strength a b = pairForce strength a' b'"
  by (simp add: pairForce_def getPosition_def)

lemma pairForce_swap:
  assumes "pairForce strength body1 body2 = Inr force"
  shows "pairForce strength body2 body1 = Inr (vneg force)"
proof -
  define d where "d = vsub (position body2) (position body1)"
  define r where "r = magnitude d"
  have sw: "vsub (position body1) (position body2) = vneg d"
    unfolding d_def by (rule vsub_swap)
  have nz: "fmul r r \<noteq> 0" and f: "force = vscale \<lparr>vx = vx d / r, vy = vy d / r\<rparr> (strength / fmul r r)"
    using pairForce_Inr [OF assms] unfolding d_def r_def by simp_all
  have nz': "fmul (magnitude (vsub (position body1) (position body2)))
                  (magnitude (vsub (position body1) (position body2))) \<noteq> 0"
    unfolding sw using nz by (simp add: r_def)
  have "pairForce strength body2 body1
      = Inr (vscale \<lparr>vx = vx (vneg d) / r, vy = vy (vneg d) / r\<rparr> (strength / fmul r r))"
    unfolding pairForce_computes [OF nz'] unfolding sw r_def by (simp only: magnitude_vneg)
  also have "\<dots> = Inr (vneg force)"
    unfolding f by (simp add: vneg_def vscale_def)
  finally show ?thesis .
qed

lemma applyForce_Inr:
  assumes "applyForce b force = Inr b'"
  shows "mass b \<noteq> 0"
    and "b' = b\<lparr>acceleration := vadd (acceleration b) (accel_of force (mass b))\<rparr>"
  using assms by (auto simp: applyForce_def vdiv_def accel_of_def split: if_splits)

lemma applyForce_fault: "applyForce b force = Inl e \<Longrightarrow> e = DivisionByZero"
  by (auto simp: applyForce_def vdiv_def split: if_splits)

lemma gravity_pair_Inr:
  assumes "gravity_pair strength bs i j = Inr bs'"
  obtains force where "pairForce strength (bs ! i) (bs ! j) = Inr force"
    and "mass (bs ! i) \<noteq> 0" and "mass (bs ! j) \<noteq> 0"
    and "bs' = bs[i := (bs ! i)\<lparr>acceleration :=
                      vadd (acceleration (bs ! i)) (accel_of force (mass (bs ! i)))\<rparr>,
                  j := (bs ! j)\<lparr>acceleration :=
                      vadd (acceleration (bs ! j)) (accel_of (vneg force) (mass (bs ! j)))\<rparr>]"
proof -
  obtain force b1 b2 where f: "pairForce strength (bs ! i) (bs ! j) = Inr force"
    and b1: "applyForce (bs ! i) force = Inr b1"
    and b2: "applyForce (bs ! j) (vneg force) = Inr b2"
    and bs': "bs' = bs[i := b1, j := b2]"
    using assms by (auto simp: gravity_pair_def applyPair_def split: sum.splits prod.splits)
  show ?thesis
    using that [OF f applyForce_Inr(1) [OF b1] applyForce_Inr(1) [OF b2]]
      applyForce_Inr(2) [OF b1] applyForce_Inr(2) [OF b2] bs'
    by simp
qed

lemma gravity_pair_fault: "gravity_pair strength bs i j = Inl e \<Longrightarrow> e = DivisionByZero"
  by (auto simp: gravity_pair_def applyPair_def split: sum.splits prod.splits
      dest: pairForce_fault applyForce_fault)

lemma gravity_inner_fault: "gravity_inner strength bs i j = Inl e \<Longrightarrow> e = DivisionByZero"
proof (induction strength bs i j rule: gravity_inner.induct)
  case (1 strength bs i j)
  show ?case
  proof (cases "j < length bs")
    case True
    show ?thesis
    proof (cases "gravity_pair strength bs i j")
      case (Inl e')
      then have "e = e'" using "1.prems" True by (subst (asm) gravity_inner.simps) simp
      then show ?thesis using gravity_pair_fault [OF Inl] by simp
    next
      case (Inr bs1)
      then have "gravity_inner strength bs1 i (j + 1) = Inl e"
        using "1.prems" True by (subst (asm) gravity_inner.simps) simp
      then show ?thesis using "1.IH" [OF True Inr] by simp
    qed
  next
    case False
    then show ?thesis using "1.prems" by (subst (asm) gravity_inner.simps) simp
  qed
qed

lemma gravity_outer_fault: "gravity_outer strength bs i = Inl e \<Longrightarrow> e = DivisionByZero"
proof (induction strength bs i rule: gravity_outer.induct)
  case (1 strength bs i)
  show ?case
  proof (cases "i < length bs")
    case True
    show ?thesis
    proof (cases "gravity_inner strength bs i (i + 1)")
      case (Inl e')
      then have "e = e'" using "1.prems" True by (subst (asm) gravity_outer.simps) simp
      then show ?thesis using gravity_inner_fault [OF Inl] by simp
    next
      case (Inr bs1)
      then have "gravity_outer strength bs1 (i + 1) = Inl e"
        using "1.prems" True by (subst (asm) gravity_outer.simps) simp
      then show ?thesis using "1.IH" [OF True Inr] by simp
    qed
  next
    case False
    then show ?thesis using "1.prems" by (subst (asm) gravity_outer.simps) simp
  qed
qed

lemma applyForce_keeps:
  "applyForce b force = Inr b' \<Longrightarrow> b'\<lparr>acceleration := zero\<rparr> = b\<lparr>acceleration := zero\<rparr>"
  by (auto simp: applyForce_def split: sum.splits)

lemma list_update_map_same: "(map f xs)[k := f (xs ! k)] = map f xs"
proof (cases "k < length xs")
  case True
  then show ?thesis by (simp add: list_update_same_conv)
next
  case False
  then show ?thesis by (simp add: list_update_beyond)
qed

lemma gravity_pair_keeps:
  assumes "gravity_pair strength bs i j = Inr bs'"
  shows "map (\<lambda>b. b\<lparr>acceleration := zero\<rparr>) bs' = map (\<lambda>b. b\<lparr>acceleration := zero\<rparr>) bs"
proof -
  obtain force b1 b2 where b1: "applyForce (bs ! i) force = Inr b1"
    and b2: "applyForce (bs ! j) (vneg force) = Inr b2"
    and bs': "bs' = bs[i := b1, j := b2]"
    using assms by (auto simp: gravity_pair_def applyPair_def split: sum.splits prod.splits)
  show ?thesis
    unfolding bs'
    by (simp add: map_update applyForce_keeps [OF b1] applyForce_keeps [OF b2]
        list_update_map_same [of "\<lambda>b. b\<lparr>acceleration := zero\<rparr>"])
qed

lemma gravity_inner_keeps:
  "gravity_inner strength bs i j = Inr bs' \<Longrightarrow>
   map (\<lambda>b. b\<lparr>acceleration := zero\<rparr>) bs' = map (\<lambda>b. b\<lparr>acceleration := zero\<rparr>) bs"
proof (induction strength bs i j arbitrary: bs' rule: gravity_inner.induct)
  case (1 strength bs i j)
  show ?case
  proof (cases "j < length bs")
    case True
    then obtain bs1 where p: "gravity_pair strength bs i j = Inr bs1"
      and r: "gravity_inner strength bs1 i (j + 1) = Inr bs'"
      using "1.prems" by (subst (asm) gravity_inner.simps) (auto split: sum.splits)
    from "1.IH" [OF True p r] gravity_pair_keeps [OF p] show ?thesis by simp
  next
    case False
    then show ?thesis
      using "1.prems" by (subst (asm) gravity_inner.simps) simp
  qed
qed

lemma gravity_outer_keeps:
  "gravity_outer strength bs i = Inr bs' \<Longrightarrow>
   map (\<lambda>b. b\<lparr>acceleration := zero\<rparr>) bs' = map (\<lambda>b. b\<lparr>acceleration := zero\<rparr>) bs"
proof (induction strength bs i arbitrary: bs' rule: gravity_outer.induct)
  case (1 strength bs i)
  show ?case
  proof (cases "i < length bs")
    case True
    then obtain bs1 where p: "gravity_inner strength bs i (i + 1) = Inr bs1"
      and r: "gravity_outer strength bs1 (i + 1) = Inr bs'"
      using "1.prems" by (subst (asm) gravity_outer.simps) (auto split: sum.splits)
    from "1.IH" [OF True p r] gravity_inner_keeps [OF p] show ?thesis by simp
  next
    case False
    then show ?thesis
      using "1.prems" by (subst (asm) gravity_outer.simps) simp
  qed
qed

lemma length_gravity_outer:
  "gravity_outer strength bs i = Inr bs' \<Longrightarrow> length bs' = length bs"
proof (induction strength bs i arbitrary: bs' rule: gravity_outer.induct)
  case (1 strength bs i)
  show ?case
  proof (cases "i < length bs")
    case True
    then obtain bs1 where p: "gravity_inner strength bs i (i + 1) = Inr bs1"
      and r: "gravity_outer strength bs1 (i + 1) = Inr bs'"
      using "1.prems" by (subst (asm) gravity_outer.simps) (auto split: sum.splits)
    from "1.IH" [OF True p r] length_gravity_inner [OF p] show ?thesis by simp
  next
    case False
    then show ?thesis
      using "1.prems" by (subst (asm) gravity_outer.simps) simp
  qed
qed

lemma same_rest_nth:
  assumes "map (\<lambda>b. b\<lparr>acceleration := zero\<rparr>) bs' = map (\<lambda>b. b\<lparr>acceleration := zero\<rparr>) bs"
    and "k < length bs"
  shows "position (bs' ! k) = position (bs ! k)" and "mass (bs' ! k) = mass (bs ! k)"
    and "velocity (bs' ! k) = velocity (bs ! k)"
proof -
  have len: "length bs' = length bs" using assms(1) by (rule map_eq_imp_length_eq)
  have "map (\<lambda>b. b\<lparr>acceleration := zero\<rparr>) bs' ! k = map (\<lambda>b. b\<lparr>acceleration := zero\<rparr>) bs ! k"
    using assms(1) by simp
  then have e: "(bs' ! k)\<lparr>acceleration := zero\<rparr> = (bs ! k)\<lparr>acceleration := zero\<rparr>"
    using assms(2) len by simp
  have "position ((bs' ! k)\<lparr>acceleration := zero\<rparr>) = position ((bs ! k)\<lparr>acceleration := zero\<rparr>)"
    by (simp only: e)
  then show "position (bs' ! k) = position (bs ! k)" by simp
  have "mass ((bs' ! k)\<lparr>acceleration := zero\<rparr>) = mass ((bs ! k)\<lparr>acceleration := zero\<rparr>)"
    by (simp only: e)
  then show "mass (bs' ! k) = mass (bs ! k)" by simp
  have "velocity ((bs' ! k)\<lparr>acceleration := zero\<rparr>) = velocity ((bs ! k)\<lparr>acceleration := zero\<rparr>)"
    by (simp only: e)
  then show "velocity (bs' ! k) = velocity (bs ! k)" by simp
qed

lemma pairForce_same_rest:
  assumes "map (\<lambda>b. b\<lparr>acceleration := zero\<rparr>) bs' = map (\<lambda>b. b\<lparr>acceleration := zero\<rparr>) bs"
    and "k < length bs" and "j < length bs"
  shows "pairForce strength (bs' ! k) (bs' ! j) = pairForce strength (bs ! k) (bs ! j)"
  using same_rest_nth(1) [OF assms(1,2)] same_rest_nth(1) [OF assms(1,3)]
  by (rule pairForce_positions)

lemma contribution_same_rest:
  assumes "map (\<lambda>b. b\<lparr>acceleration := zero\<rparr>) bs' = map (\<lambda>b. b\<lparr>acceleration := zero\<rparr>) bs"
    and "k < length bs" and "j < length bs"
  shows "contribution strength bs' k j = contribution strength bs k j"
  using pairForce_same_rest [OF assms(1,2,3), of strength]
    pairForce_same_rest [OF assms(1,3,2), of strength]
    same_rest_nth(2) [OF assms(1,2)]
  by (simp add: contribution_def pair_force_def)

lemma contributions_same_rest:
  assumes "map (\<lambda>b. b\<lparr>acceleration := zero\<rparr>) bs' = map (\<lambda>b. b\<lparr>acceleration := zero\<rparr>) bs"
    and "k < length bs" and "\<And>j. j \<in> set js \<Longrightarrow> j < length bs"
  shows "map (contribution strength bs' k) js = map (contribution strength bs k) js"
proof (rule map_cong [OF refl])
  fix j assume "j \<in> set js"
  then have "j < length bs" by (rule assms(3))
  then show "contribution strength bs' k j = contribution strength bs k j"
    by (rule contribution_same_rest [OF assms(1,2)])
qed

text \<open>
  The inner loop from \<open>j\<close>, where it returns: every pair \<open>(i, j')\<close> with \<open>j \<le> j'\<close> has a
  force and nonzero masses; body \<open>i\<close> has received its share of each of them in order,
  every body \<open>k \<ge> j\<close> its share of the pair \<open>(i, k)\<close>, and no other acceleration has
  changed.
\<close>

lemma gravity_inner_acc:
  "gravity_inner strength bs i j = Inr bs' \<Longrightarrow> i < j \<Longrightarrow>
   (\<forall>j'. j \<le> j' \<and> j' < length bs \<longrightarrow>
      (\<exists>f. pairForce strength (bs ! i) (bs ! j') = Inr f)
      \<and> mass (bs ! i) \<noteq> 0 \<and> mass (bs ! j') \<noteq> 0)
   \<and> (\<forall>k < length bs. acceleration (bs' ! k) =
        (if k = i
         then foldl vadd (acceleration (bs ! i)) (map (contribution strength bs i) [j..<length bs])
         else if j \<le> k then vadd (acceleration (bs ! k)) (contribution strength bs k i)
         else acceleration (bs ! k)))"
proof (induction strength bs i j arbitrary: bs' rule: gravity_inner.induct)
  case (1 strength bs i j)
  show ?case
  proof (cases "j < length bs")
    case False
    then have "bs' = bs" using "1.prems"(1) by (subst (asm) gravity_inner.simps) simp
    then show ?thesis using False by auto
  next
    case True
    then obtain bs1 where p: "gravity_pair strength bs i j = Inr bs1"
      and r: "gravity_inner strength bs1 i (j + 1) = Inr bs'"
      using "1.prems"(1) by (subst (asm) gravity_inner.simps) (auto split: sum.splits)
    obtain force where f: "pairForce strength (bs ! i) (bs ! j) = Inr force"
      and mi: "mass (bs ! i) \<noteq> 0" and mj: "mass (bs ! j) \<noteq> 0"
      and bs1: "bs1 = bs[i := (bs ! i)\<lparr>acceleration :=
                      vadd (acceleration (bs ! i)) (accel_of force (mass (bs ! i)))\<rparr>,
                  j := (bs ! j)\<lparr>acceleration :=
                      vadd (acceleration (bs ! j)) (accel_of (vneg force) (mass (bs ! j)))\<rparr>]"
      using gravity_pair_Inr [OF p] by blast
    note keep = gravity_pair_keeps [OF p]
    have len: "length bs1 = length bs" using length_gravity_pair [OF p] .
    have il: "i < length bs" and ij: "i \<noteq> j" using "1.prems"(2) True by simp_all
    have ih: "(\<forall>j'. j + 1 \<le> j' \<and> j' < length bs1 \<longrightarrow>
                 (\<exists>f. pairForce strength (bs1 ! i) (bs1 ! j') = Inr f)
                 \<and> mass (bs1 ! i) \<noteq> 0 \<and> mass (bs1 ! j') \<noteq> 0)
       \<and> (\<forall>k < length bs1. acceleration (bs' ! k) =
            (if k = i
             then foldl vadd (acceleration (bs1 ! i))
                    (map (contribution strength bs1 i) [j + 1..<length bs1])
             else if j + 1 \<le> k then vadd (acceleration (bs1 ! k)) (contribution strength bs1 k i)
             else acceleration (bs1 ! k)))"
      using "1.prems"(2) by (intro "1.IH" [OF True p r]) simp
    have ci: "contribution strength bs i j = accel_of force (mass (bs ! i))"
      using "1.prems"(2) f by (simp add: contribution_def pair_force_def)
    have cj: "contribution strength bs j i = accel_of (vneg force) (mass (bs ! j))"
      using "1.prems"(2) f by (simp add: contribution_def pair_force_def)
    have a1i: "acceleration (bs1 ! i) = vadd (acceleration (bs ! i)) (contribution strength bs i j)"
      using il ij True by (simp add: bs1 ci)
    have a1j: "acceleration (bs1 ! j) = vadd (acceleration (bs ! j)) (contribution strength bs j i)"
      using True by (simp add: bs1 cj)
    have a1k: "bs1 ! k = bs ! k" if "k \<noteq> i" and "k \<noteq> j" for k
      using that by (simp add: bs1)
    have pairs: "(\<exists>f. pairForce strength (bs ! i) (bs ! j') = Inr f)
        \<and> mass (bs ! i) \<noteq> 0 \<and> mass (bs ! j') \<noteq> 0"
      if "j \<le> j'" and "j' < length bs" for j'
    proof (cases "j' = j")
      case True
      then show ?thesis using f mi mj by blast
    next
      case False
      then have "j + 1 \<le> j' \<and> j' < length bs1" using that len by simp
      then obtain g where "pairForce strength (bs1 ! i) (bs1 ! j') = Inr g"
        and "mass (bs1 ! j') \<noteq> 0"
        using ih by blast
      then show ?thesis
        using pairForce_same_rest [OF keep il that(2), of strength]
          same_rest_nth(2) [OF keep that(2)] mi
        by auto
    qed
    have acc: "acceleration (bs' ! k) =
        (if k = i
         then foldl vadd (acceleration (bs ! i)) (map (contribution strength bs i) [j..<length bs])
         else if j \<le> k then vadd (acceleration (bs ! k)) (contribution strength bs k i)
         else acceleration (bs ! k))" if kl: "k < length bs" for k
    proof -
      have k1: "k < length bs1" using kl len by simp
      consider (i) "k = i" | (j) "k = j" | (above) "k \<noteq> i" "j + 1 \<le> k" | (below) "k \<noteq> i" "k < j"
        by linarith
      then show ?thesis
      proof cases
        case i
        have "acceleration (bs' ! k) = foldl vadd (acceleration (bs1 ! i))
                    (map (contribution strength bs1 i) [j + 1..<length bs1])"
          using ih k1 i by simp
        also have "map (contribution strength bs1 i) [j + 1..<length bs1]
            = map (contribution strength bs i) [j + 1..<length bs]"
          unfolding len by (rule contributions_same_rest [OF keep il]) simp
        also have "foldl vadd (acceleration (bs1 ! i)) (map (contribution strength bs i) [j + 1..<length bs])
            = foldl vadd (acceleration (bs ! i)) (map (contribution strength bs i) [j..<length bs])"
          using True by (simp add: a1i upt_conv_Cons)
        finally show ?thesis using i by simp
      next
        case j
        have "acceleration (bs' ! k) = acceleration (bs1 ! j)"
          using ih k1 j ij by simp
        then show ?thesis using a1j j ij by simp
      next
        case above
        have "acceleration (bs' ! k) = vadd (acceleration (bs1 ! k)) (contribution strength bs1 k i)"
          using ih k1 above by simp
        moreover have "contribution strength bs1 k i = contribution strength bs k i"
          by (rule contribution_same_rest [OF keep kl il])
        moreover have "bs1 ! k = bs ! k" using above by (intro a1k) simp_all
        ultimately show ?thesis using above by simp
      next
        case below
        have "acceleration (bs' ! k) = acceleration (bs1 ! k)"
          using ih k1 below by simp
        moreover have "bs1 ! k = bs ! k" using below by (intro a1k) simp_all
        ultimately show ?thesis using below by simp
      qed
    qed
    show ?thesis using pairs acc by blast
  qed
qed

text \<open>
  The outer loop from \<open>i\<close>, where it returns: every pair \<open>(i', j')\<close> with \<open>i \<le> i' < j'\<close>
  has a force and nonzero masses, and every body \<open>k \<ge> i\<close> has received its share of the
  pairs it forms with the bodies from \<open>i\<close> on, in increasing order of the other body.
\<close>

lemma gravity_outer_acc:
  "gravity_outer strength bs i = Inr bs' \<Longrightarrow>
   (\<forall>i' j'. i \<le> i' \<and> i' < j' \<and> j' < length bs \<longrightarrow>
      (\<exists>f. pairForce strength (bs ! i') (bs ! j') = Inr f)
      \<and> mass (bs ! i') \<noteq> 0 \<and> mass (bs ! j') \<noteq> 0)
   \<and> (\<forall>k < length bs. acceleration (bs' ! k) =
        (if i \<le> k
         then foldl vadd (acceleration (bs ! k))
                (map (contribution strength bs k) ([i..<k] @ [Suc k..<length bs]))
         else acceleration (bs ! k)))"
proof (induction strength bs i arbitrary: bs' rule: gravity_outer.induct)
  case (1 strength bs i)
  show ?case
  proof (cases "i < length bs")
    case False
    then have "bs' = bs" using "1.prems"(1) by (subst (asm) gravity_outer.simps) simp
    then show ?thesis using False by auto
  next
    case True
    then obtain bs1 where p: "gravity_inner strength bs i (i + 1) = Inr bs1"
      and r: "gravity_outer strength bs1 (i + 1) = Inr bs'"
      using "1.prems"(1) by (subst (asm) gravity_outer.simps) (auto split: sum.splits)
    note keep = gravity_inner_keeps [OF p]
    have len: "length bs1 = length bs" using length_gravity_inner [OF p] .
    have inner: "(\<forall>j'. i + 1 \<le> j' \<and> j' < length bs \<longrightarrow>
          (\<exists>f. pairForce strength (bs ! i) (bs ! j') = Inr f)
          \<and> mass (bs ! i) \<noteq> 0 \<and> mass (bs ! j') \<noteq> 0)
       \<and> (\<forall>k < length bs. acceleration (bs1 ! k) =
            (if k = i
             then foldl vadd (acceleration (bs ! i))
                    (map (contribution strength bs i) [i + 1..<length bs])
             else if i + 1 \<le> k then vadd (acceleration (bs ! k)) (contribution strength bs k i)
             else acceleration (bs ! k)))"
      by (rule gravity_inner_acc [OF p]) simp
    have ih: "(\<forall>i' j'. i + 1 \<le> i' \<and> i' < j' \<and> j' < length bs1 \<longrightarrow>
          (\<exists>f. pairForce strength (bs1 ! i') (bs1 ! j') = Inr f)
          \<and> mass (bs1 ! i') \<noteq> 0 \<and> mass (bs1 ! j') \<noteq> 0)
       \<and> (\<forall>k < length bs1. acceleration (bs' ! k) =
            (if i + 1 \<le> k
             then foldl vadd (acceleration (bs1 ! k))
                    (map (contribution strength bs1 k) ([i + 1..<k] @ [Suc k..<length bs1]))
             else acceleration (bs1 ! k)))"
      by (rule "1.IH" [OF True p r])
    have pairs: "(\<exists>f. pairForce strength (bs ! i') (bs ! j') = Inr f)
        \<and> mass (bs ! i') \<noteq> 0 \<and> mass (bs ! j') \<noteq> 0"
      if "i \<le> i'" and "i' < j'" and "j' < length bs" for i' j'
    proof (cases "i' = i")
      case True
      then have "i + 1 \<le> j' \<and> j' < length bs" using that by simp
      then show ?thesis using inner True by blast
    next
      case False
      then have c: "i + 1 \<le> i' \<and> i' < j' \<and> j' < length bs1" using that len by simp
      have i'l: "i' < length bs" using that by simp
      obtain g where "pairForce strength (bs1 ! i') (bs1 ! j') = Inr g"
        and "mass (bs1 ! i') \<noteq> 0" and "mass (bs1 ! j') \<noteq> 0"
        using ih c by blast
      then show ?thesis
        using pairForce_same_rest [OF keep i'l that(3), of strength]
          same_rest_nth(2) [OF keep that(3)] same_rest_nth(2) [OF keep i'l]
        by auto
    qed
    have acc: "acceleration (bs' ! k) =
        (if i \<le> k
         then foldl vadd (acceleration (bs ! k))
                (map (contribution strength bs k) ([i..<k] @ [Suc k..<length bs]))
         else acceleration (bs ! k))" if kl: "k < length bs" for k
    proof -
      have k1: "k < length bs1" using kl len by simp
      consider (eq) "k = i" | (above) "i + 1 \<le> k" | (below) "k < i" by linarith
      then show ?thesis
      proof cases
        case eq
        have "acceleration (bs' ! k) = acceleration (bs1 ! i)" using ih k1 eq by simp
        also have "\<dots> = foldl vadd (acceleration (bs ! i))
                    (map (contribution strength bs i) [i + 1..<length bs])"
          using inner True by simp
        finally show ?thesis using eq by simp
      next
        case above
        have ik: "i < k" using above by simp
        have "acceleration (bs' ! k) = foldl vadd (acceleration (bs1 ! k))
                    (map (contribution strength bs1 k) ([i + 1..<k] @ [Suc k..<length bs1]))"
          using ih k1 above by simp
        also have "map (contribution strength bs1 k) ([i + 1..<k] @ [Suc k..<length bs1])
            = map (contribution strength bs k) ([i + 1..<k] @ [Suc k..<length bs])"
          unfolding len using kl by (intro contributions_same_rest [OF keep kl]) auto
        also have "acceleration (bs1 ! k) = vadd (acceleration (bs ! k)) (contribution strength bs k i)"
          using inner kl above by simp
        finally show ?thesis using ik by (simp add: upt_conv_Cons)
      next
        case below
        have "acceleration (bs' ! k) = acceleration (bs1 ! k)" using ih k1 below by simp
        also have "\<dots> = acceleration (bs ! k)" using inner kl below by simp
        finally show ?thesis using below by simp
      qed
    qed
    show ?thesis using pairs acc by blast
  qed
qed

lemma applyGravitationalForces_keeps:
  assumes "applyGravitationalForces strength w = Inr w'"
  shows "ticks w' = ticks w" and "length (bodies w') = length (bodies w)"
    and "map position (bodies w') = map position (bodies w)"
    and "map velocity (bodies w') = map velocity (bodies w)"
    and "map mass (bodies w') = map mass (bodies w)"
proof -
  obtain bs where g: "gravity_outer strength (bodies w) 0 = Inr bs" and w': "w' = w\<lparr>bodies := bs\<rparr>"
    using assms by (auto simp: applyGravitationalForces_def split: sum.splits)
  have k: "map (\<lambda>b. b\<lparr>acceleration := zero\<rparr>) bs
      = map (\<lambda>b. b\<lparr>acceleration := zero\<rparr>) (bodies w)"
    using gravity_outer_keeps [OF g] .
  show "ticks w' = ticks w" by (simp add: w')
  show "length (bodies w') = length (bodies w)"
    using length_gravity_outer [OF g] by (simp add: w')
  have "map position (map (\<lambda>b. b\<lparr>acceleration := zero\<rparr>) bs)
      = map position (map (\<lambda>b. b\<lparr>acceleration := zero\<rparr>) (bodies w))"
    by (simp only: k)
  then show "map position (bodies w') = map position (bodies w)"
    by (simp add: w' comp_def)
  have "map velocity (map (\<lambda>b. b\<lparr>acceleration := zero\<rparr>) bs)
      = map velocity (map (\<lambda>b. b\<lparr>acceleration := zero\<rparr>) (bodies w))"
    by (simp only: k)
  then show "map velocity (bodies w') = map velocity (bodies w)"
    by (simp add: w' comp_def)
  have "map mass (map (\<lambda>b. b\<lparr>acceleration := zero\<rparr>) bs)
      = map mass (map (\<lambda>b. b\<lparr>acceleration := zero\<rparr>) (bodies w))"
    by (simp only: k)
  then show "map mass (bodies w') = map mass (bodies w)"
    by (simp add: w' comp_def)
qed

text \<open>
  C3, as amended. Where \<open>pairForce\<close> computes a force for a pair of bodies, it computes
  the exact negation, of the same magnitude, for the pair taken the other way round.
  Where \<open>applyGravitationalForces\<close> returns a world \<open>w'\<close>, it has visited every pair
  \<open>i < j\<close> of the vector: each pair has a force, the pair taken the other way round has
  its negation, no mass is zero, and the acceleration of every body \<open>k\<close> in \<open>w'\<close> is its
  acceleration before with, for every other body \<open>j\<close> in increasing order, the force
  of their pair over the mass of \<open>k\<close> added: the force as it is where \<open>k\<close> is the first
  body of the pair, its negation where \<open>k\<close> is the second. Positions, velocities and
  masses are as before.
\<close>

theorem applyGravitationalForces_every_pair:
  "(pairForce strength body1 body2 = Inr force \<longrightarrow>
      pairForce strength body2 body1 = Inr (vneg force)
      \<and> magnitude (vneg force) = magnitude force)
   \<and> (applyGravitationalForces strength w = Inr w' \<longrightarrow>
        length (bodies w') = length (bodies w)
      \<and> (\<forall>i j. i < j \<and> j < length (bodies w) \<longrightarrow>
            pairForce strength (bodies w ! i) (bodies w ! j)
              = Inr (pair_force strength (bodies w ! i) (bodies w ! j))
          \<and> pairForce strength (bodies w ! j) (bodies w ! i)
              = Inr (vneg (pair_force strength (bodies w ! i) (bodies w ! j)))
          \<and> mass (bodies w ! i) \<noteq> 0 \<and> mass (bodies w ! j) \<noteq> 0)
      \<and> (\<forall>k < length (bodies w).
            acceleration (bodies w' ! k)
              = foldl vadd (acceleration (bodies w ! k))
                  (map (contribution strength (bodies w) k)
                     ([0..<k] @ [Suc k..<length (bodies w)]))
          \<and> position (bodies w' ! k) = position (bodies w ! k)
          \<and> velocity (bodies w' ! k) = velocity (bodies w ! k)
          \<and> mass (bodies w' ! k) = mass (bodies w ! k)))
   \<and> (applyGravitationalForces strength w = Inl e \<longrightarrow> e = DivisionByZero)"
proof -
  have fault: "e = DivisionByZero" if "applyGravitationalForces strength w = Inl e"
    using that gravity_outer_fault [of strength "bodies w" 0 e]
    by (auto simp: applyGravitationalForces_def split: sum.splits)
  have pair: "pairForce strength body2 body1 = Inr (vneg force)
      \<and> magnitude (vneg force) = magnitude force"
    if "pairForce strength body1 body2 = Inr force"
    using pairForce_swap [OF that] by simp
  have routine: "length (bodies w') = length (bodies w)
      \<and> (\<forall>i j. i < j \<and> j < length (bodies w) \<longrightarrow>
            pairForce strength (bodies w ! i) (bodies w ! j)
              = Inr (pair_force strength (bodies w ! i) (bodies w ! j))
          \<and> pairForce strength (bodies w ! j) (bodies w ! i)
              = Inr (vneg (pair_force strength (bodies w ! i) (bodies w ! j)))
          \<and> mass (bodies w ! i) \<noteq> 0 \<and> mass (bodies w ! j) \<noteq> 0)
      \<and> (\<forall>k < length (bodies w).
            acceleration (bodies w' ! k)
              = foldl vadd (acceleration (bodies w ! k))
                  (map (contribution strength (bodies w) k)
                     ([0..<k] @ [Suc k..<length (bodies w)]))
          \<and> position (bodies w' ! k) = position (bodies w ! k)
          \<and> velocity (bodies w' ! k) = velocity (bodies w ! k)
          \<and> mass (bodies w' ! k) = mass (bodies w ! k))"
    if ok: "applyGravitationalForces strength w = Inr w'"
  proof -
    obtain bs where g: "gravity_outer strength (bodies w) 0 = Inr bs"
      and w': "w' = w\<lparr>bodies := bs\<rparr>"
      using ok by (auto simp: applyGravitationalForces_def split: sum.splits)
    note inv1 = gravity_outer_acc [OF g, THEN conjunct1, rule_format]
    note inv2 = gravity_outer_acc [OF g, THEN conjunct2, rule_format]
    note keep = gravity_outer_keeps [OF g]
    have len: "length (bodies w') = length (bodies w)"
      using applyGravitationalForces_keeps(2) [OF ok] .
    have pairs: "pairForce strength (bodies w ! i) (bodies w ! j)
              = Inr (pair_force strength (bodies w ! i) (bodies w ! j))
          \<and> pairForce strength (bodies w ! j) (bodies w ! i)
              = Inr (vneg (pair_force strength (bodies w ! i) (bodies w ! j)))
          \<and> mass (bodies w ! i) \<noteq> 0 \<and> mass (bodies w ! j) \<noteq> 0"
      if ij: "i < j" and jl: "j < length (bodies w)" for i j
    proof -
      obtain f where f: "pairForce strength (bodies w ! i) (bodies w ! j) = Inr f"
        and m: "mass (bodies w ! i) \<noteq> 0" "mass (bodies w ! j) \<noteq> 0"
        using inv1 [of i j] ij jl by auto
      have "pair_force strength (bodies w ! i) (bodies w ! j) = f"
        by (simp add: pair_force_def f)
      then show ?thesis using f m pairForce_swap [OF f] by simp
    qed
    have each: "acceleration (bodies w' ! k)
              = foldl vadd (acceleration (bodies w ! k))
                  (map (contribution strength (bodies w) k)
                     ([0..<k] @ [Suc k..<length (bodies w)]))
          \<and> position (bodies w' ! k) = position (bodies w ! k)
          \<and> velocity (bodies w' ! k) = velocity (bodies w ! k)
          \<and> mass (bodies w' ! k) = mass (bodies w ! k)"
      if kl: "k < length (bodies w)" for k
      using inv2 [OF kl] same_rest_nth [OF keep kl] by (simp add: w')
    have P: "\<forall>i j. i < j \<and> j < length (bodies w) \<longrightarrow>
            pairForce strength (bodies w ! i) (bodies w ! j)
              = Inr (pair_force strength (bodies w ! i) (bodies w ! j))
          \<and> pairForce strength (bodies w ! j) (bodies w ! i)
              = Inr (vneg (pair_force strength (bodies w ! i) (bodies w ! j)))
          \<and> mass (bodies w ! i) \<noteq> 0 \<and> mass (bodies w ! j) \<noteq> 0"
      using pairs by blast
    have E: "\<forall>k < length (bodies w).
            acceleration (bodies w' ! k)
              = foldl vadd (acceleration (bodies w ! k))
                  (map (contribution strength (bodies w) k)
                     ([0..<k] @ [Suc k..<length (bodies w)]))
          \<and> position (bodies w' ! k) = position (bodies w ! k)
          \<and> velocity (bodies w' ! k) = velocity (bodies w ! k)
          \<and> mass (bodies w' ! k) = mass (bodies w ! k)"
      using each by blast
    show ?thesis by (rule conjI [OF len conjI [OF P E]])
  qed
  show ?thesis
  proof (intro conjI impI)
    assume a: "pairForce strength body1 body2 = Inr force"
    show "pairForce strength body2 body1 = Inr (vneg force)" using pair [OF a] by simp
    show "magnitude (vneg force) = magnitude force" using pair [OF a] by simp
  next
    assume a: "applyGravitationalForces strength w = Inr w'"
    show "length (bodies w') = length (bodies w)" using routine [OF a] by simp
    show "\<forall>i j. i < j \<and> j < length (bodies w) \<longrightarrow>
            pairForce strength (bodies w ! i) (bodies w ! j)
              = Inr (pair_force strength (bodies w ! i) (bodies w ! j))
          \<and> pairForce strength (bodies w ! j) (bodies w ! i)
              = Inr (vneg (pair_force strength (bodies w ! i) (bodies w ! j)))
          \<and> mass (bodies w ! i) \<noteq> 0 \<and> mass (bodies w ! j) \<noteq> 0"
      using routine [OF a] by (rule conjunct2 [THEN conjunct1])
    show "\<forall>k < length (bodies w).
            acceleration (bodies w' ! k)
              = foldl vadd (acceleration (bodies w ! k))
                  (map (contribution strength (bodies w) k)
                     ([0..<k] @ [Suc k..<length (bodies w)]))
          \<and> position (bodies w' ! k) = position (bodies w ! k)
          \<and> velocity (bodies w' ! k) = velocity (bodies w ! k)
          \<and> mass (bodies w' ! k) = mass (bodies w ! k)"
      using routine [OF a] by (rule conjunct2 [THEN conjunct2])
  next
    assume "applyGravitationalForces strength w = Inl e"
    then show "e = DivisionByZero" by (rule fault)
  qed
qed

theorem applyGravitationalForces_every_pair_witness:
  "applyGravitationalForces 36
     \<lparr>ticks = 0, bodies =
        [PhysicsBody_new \<lparr>vx = 0, vy = 0\<rparr> \<lparr>vx = 0, vy = 0\<rparr> 1,
         PhysicsBody_new \<lparr>vx = 1, vy = 0\<rparr> \<lparr>vx = 0, vy = 5\<rparr> 2,
         PhysicsBody_new \<lparr>vx = 3, vy = 0\<rparr> \<lparr>vx = 0, vy = 7\<rparr> 3]\<rparr>
    = Inr \<lparr>ticks = 0, bodies =
        [\<lparr>position = \<lparr>vx = 0, vy = 0\<rparr>, velocity = \<lparr>vx = 0, vy = 0\<rparr>,
           acceleration = \<lparr>vx = 40, vy = 0\<rparr>, mass = 1\<rparr>,
         \<lparr>position = \<lparr>vx = 1, vy = 0\<rparr>, velocity = \<lparr>vx = 0, vy = 5\<rparr>,
           acceleration = \<lparr>vx = - (27 / 2), vy = 0\<rparr>, mass = 2\<rparr>,
         \<lparr>position = \<lparr>vx = 3, vy = 0\<rparr>, velocity = \<lparr>vx = 0, vy = 7\<rparr>,
           acceleration = \<lparr>vx = - (13 / 3), vy = 0\<rparr>, mass = 3\<rparr>]\<rparr>
   \<and> pairForce 36 (PhysicsBody_new \<lparr>vx = 1, vy = 0\<rparr> \<lparr>vx = 0, vy = 5\<rparr> 2)
         (PhysicsBody_new \<lparr>vx = 3, vy = 0\<rparr> \<lparr>vx = 0, vy = 7\<rparr> 3)
       = Inr \<lparr>vx = 9, vy = 0\<rparr>
   \<and> pairForce 36 (PhysicsBody_new \<lparr>vx = 3, vy = 0\<rparr> \<lparr>vx = 0, vy = 7\<rparr> 3)
         (PhysicsBody_new \<lparr>vx = 1, vy = 0\<rparr> \<lparr>vx = 0, vy = 5\<rparr> 2)
       = Inr \<lparr>vx = - 9, vy = 0\<rparr>
   \<and> pairForce 36 (PhysicsBody_new \<lparr>vx = 3, vy = 0\<rparr> \<lparr>vx = 0, vy = 7\<rparr> 3)
         (PhysicsBody_new \<lparr>vx = 0, vy = 0\<rparr> \<lparr>vx = 0, vy = 0\<rparr> 1)
       = Inr \<lparr>vx = - 4, vy = 0\<rparr>
   \<and> foldl vadd \<lparr>vx = 0, vy = 0\<rparr>
         (map (contribution 36
            [PhysicsBody_new \<lparr>vx = 0, vy = 0\<rparr> \<lparr>vx = 0, vy = 0\<rparr> 1,
             PhysicsBody_new \<lparr>vx = 1, vy = 0\<rparr> \<lparr>vx = 0, vy = 5\<rparr> 2,
             PhysicsBody_new \<lparr>vx = 3, vy = 0\<rparr> \<lparr>vx = 0, vy = 7\<rparr> 3] 1) [0, 2])
       = \<lparr>vx = - (27 / 2), vy = 0\<rparr>"
proof -
  define A where "A = PhysicsBody_new \<lparr>vx = 0, vy = 0\<rparr> \<lparr>vx = 0, vy = 0\<rparr> 1"
  define B where "B = PhysicsBody_new \<lparr>vx = 1, vy = 0\<rparr> \<lparr>vx = 0, vy = 5\<rparr> 2"
  define C where "C = PhysicsBody_new \<lparr>vx = 3, vy = 0\<rparr> \<lparr>vx = 0, vy = 7\<rparr> 3"
  define w' where "w' = \<lparr>ticks = 0, bodies =
        [\<lparr>position = \<lparr>vx = 0, vy = 0\<rparr>, velocity = \<lparr>vx = 0, vy = 0\<rparr>,
           acceleration = \<lparr>vx = 40, vy = 0\<rparr>, mass = 1\<rparr>,
         \<lparr>position = \<lparr>vx = 1, vy = 0\<rparr>, velocity = \<lparr>vx = 0, vy = 5\<rparr>,
           acceleration = \<lparr>vx = - (27 / 2), vy = 0\<rparr>, mass = 2\<rparr>,
         \<lparr>position = \<lparr>vx = 3, vy = 0\<rparr>, velocity = \<lparr>vx = 0, vy = 7\<rparr>,
           acceleration = \<lparr>vx = - (13 / 3), vy = 0\<rparr>, mass = 3\<rparr>]\<rparr>"
  have AB: "pairForce 36 A B = Inr \<lparr>vx = 36, vy = 0\<rparr>"
    by (simp add: A_def B_def PhysicsBody_new_def pairForce_def Let_def getPosition_def
        vsub_def magnitude_horizontal fdiv_def fmul_def normalized_def vdiv_def vscale_def)
  have AC: "pairForce 36 A C = Inr \<lparr>vx = 4, vy = 0\<rparr>"
    by (simp add: A_def C_def PhysicsBody_new_def pairForce_def Let_def getPosition_def
        vsub_def magnitude_horizontal fdiv_def fmul_def normalized_def vdiv_def vscale_def)
  have BC: "pairForce 36 B C = Inr \<lparr>vx = 9, vy = 0\<rparr>"
    by (simp add: B_def C_def PhysicsBody_new_def pairForce_def Let_def getPosition_def
        vsub_def magnitude_horizontal fdiv_def fmul_def normalized_def vdiv_def vscale_def)
  have run: "applyGravitationalForces 36 \<lparr>ticks = 0, bodies = [A, B, C]\<rparr> = Inr w'"
    by (simp add: applyGravitationalForces_def gravity_outer.simps gravity_inner.simps
        gravity_pair_def A_def B_def C_def w'_def PhysicsBody_new_def Vector2D_default_def
        zero_def applyPair_def applyForce_def vdiv_def vadd_def vneg_def
        pairForce_def Let_def getPosition_def vsub_def magnitude_horizontal fdiv_def
        fmul_def normalized_def vscale_def)
  note T = applyGravitationalForces_every_pair
    [of 36 B C "\<lparr>vx = 9, vy = 0\<rparr>" "\<lparr>ticks = 0, bodies = [A, B, C]\<rparr>" w']
  have CB: "pairForce 36 C B = Inr \<lparr>vx = - 9, vy = 0\<rparr>"
    using T BC by (simp add: vneg_def)
  have "(0::nat) < 2 \<and> 2 < length (bodies \<lparr>ticks = 0, bodies = [A, B, C]\<rparr>) \<longrightarrow>
      pairForce 36 (bodies \<lparr>ticks = 0, bodies = [A, B, C]\<rparr> ! 0)
          (bodies \<lparr>ticks = 0, bodies = [A, B, C]\<rparr> ! 2)
        = Inr (pair_force 36 (bodies \<lparr>ticks = 0, bodies = [A, B, C]\<rparr> ! 0)
            (bodies \<lparr>ticks = 0, bodies = [A, B, C]\<rparr> ! 2))
      \<and> pairForce 36 (bodies \<lparr>ticks = 0, bodies = [A, B, C]\<rparr> ! 2)
          (bodies \<lparr>ticks = 0, bodies = [A, B, C]\<rparr> ! 0)
        = Inr (vneg (pair_force 36 (bodies \<lparr>ticks = 0, bodies = [A, B, C]\<rparr> ! 0)
            (bodies \<lparr>ticks = 0, bodies = [A, B, C]\<rparr> ! 2)))
      \<and> mass (bodies \<lparr>ticks = 0, bodies = [A, B, C]\<rparr> ! 0) \<noteq> 0
      \<and> mass (bodies \<lparr>ticks = 0, bodies = [A, B, C]\<rparr> ! 2) \<noteq> 0"
    using T [THEN conjunct2, THEN conjunct1, THEN mp, OF run, THEN conjunct2, THEN conjunct1,
        THEN spec, THEN spec, of 0 2] .
  then have CA: "pairForce 36 C A = Inr \<lparr>vx = - 4, vy = 0\<rparr>"
    using AC by (simp add: pair_force_def vneg_def)
  have ix: "[0..<1] @ [Suc 1..<length (bodies \<lparr>ticks = 0, bodies = [A, B, C]\<rparr>)] = [0, 2]"
    by (simp add: upt_conv_Cons)
  have "1 < length (bodies \<lparr>ticks = 0, bodies = [A, B, C]\<rparr>) \<longrightarrow>
      acceleration (bodies w' ! 1)
        = foldl vadd (acceleration (bodies \<lparr>ticks = 0, bodies = [A, B, C]\<rparr> ! 1))
            (map (contribution 36 (bodies \<lparr>ticks = 0, bodies = [A, B, C]\<rparr>) 1)
               ([0..<1] @ [Suc 1..<length (bodies \<lparr>ticks = 0, bodies = [A, B, C]\<rparr>)]))
      \<and> position (bodies w' ! 1) = position (bodies \<lparr>ticks = 0, bodies = [A, B, C]\<rparr> ! 1)
      \<and> velocity (bodies w' ! 1) = velocity (bodies \<lparr>ticks = 0, bodies = [A, B, C]\<rparr> ! 1)
      \<and> mass (bodies w' ! 1) = mass (bodies \<lparr>ticks = 0, bodies = [A, B, C]\<rparr> ! 1)"
    using T [THEN conjunct2, THEN conjunct1, THEN mp, OF run, THEN conjunct2, THEN conjunct2,
        THEN spec, of 1] .
  then have acc: "acceleration (bodies w' ! 1)
      = foldl vadd (acceleration B) (map (contribution 36 [A, B, C] 1) [0, 2])"
    unfolding ix by simp
  have accB: "acceleration B = \<lparr>vx = 0, vy = 0\<rparr>"
    by (simp add: B_def PhysicsBody_new_def Vector2D_default_def zero_def)
  have accw: "acceleration (bodies w' ! 1) = \<lparr>vx = - (27 / 2), vy = 0\<rparr>"
    by (simp add: w'_def)
  have "foldl vadd \<lparr>vx = 0, vy = 0\<rparr> (map (contribution 36 [A, B, C] 1) [0, 2])
      = \<lparr>vx = - (27 / 2), vy = 0\<rparr>"
    using acc unfolding accB accw by simp
  with run BC CB CA show ?thesis unfolding A_def B_def C_def w'_def by simp
qed

text \<open>
  C3 as stated fails: a nonzero separation does not give the pair a force. Two bodies a
  distance of 2 to the power -100 apart are at different positions, the square of their
  separation underflows to zero, and the routine divides by zero.
\<close>

theorem underflowing_separation_counterexample:
  "position (PhysicsBody_new \<lparr>vx = 0, vy = 0\<rparr> \<lparr>vx = 0, vy = 0\<rparr> 1)
     \<noteq> position (PhysicsBody_new \<lparr>vx = 1 / 2 ^ 100, vy = 0\<rparr> \<lparr>vx = 0, vy = 0\<rparr> 1)
   \<and> pairForce GRAVITATIONAL_CONSTANT
       (PhysicsBody_new \<lparr>vx = 0, vy = 0\<rparr> \<lparr>vx = 0, vy = 0\<rparr> 1)
       (PhysicsBody_new \<lparr>vx = 1 / 2 ^ 100, vy = 0\<rparr> \<lparr>vx = 0, vy = 0\<rparr> 1)
     = Inl DivisionByZero
   \<and> applyGravitationalForces GRAVITATIONAL_CONSTANT
       (addBody (addBody PhysicsWorld_new
          (PhysicsBody_new \<lparr>vx = 0, vy = 0\<rparr> \<lparr>vx = 0, vy = 0\<rparr> 1))
          (PhysicsBody_new \<lparr>vx = 1 / 2 ^ 100, vy = 0\<rparr> \<lparr>vx = 0, vy = 0\<rparr> 1))
     = Inl DivisionByZero"
proof -
  define A where "A = PhysicsBody_new \<lparr>vx = 0, vy = 0\<rparr> \<lparr>vx = 0, vy = 0\<rparr> 1"
  define B where "B = PhysicsBody_new \<lparr>vx = 1 / 2 ^ 100, vy = 0\<rparr> \<lparr>vx = 0, vy = 0\<rparr> 1"
  have ne: "position A \<noteq> position B"
    by (simp add: A_def B_def PhysicsBody_new_def)
  have p: "pairForce GRAVITATIONAL_CONSTANT A B = Inl DivisionByZero"
    by (simp add: A_def B_def PhysicsBody_new_def pairForce_def Let_def getPosition_def
        vsub_def magnitude_horizontal fdiv_def fmul_def)
  have "applyGravitationalForces GRAVITATIONAL_CONSTANT
       (addBody (addBody PhysicsWorld_new A) B) = Inl DivisionByZero"
    by (simp add: applyGravitationalForces_def addBody_def PhysicsWorld_new_def
      gravity_outer.simps gravity_inner.simps gravity_pair_def p)
  with ne p show ?thesis unfolding A_def B_def by blast
qed




section \<open>Cloning a world\<close>

lemma clone_loop_eq:
  "clone_loop bs world i = world\<lparr>bodies := bodies world @ map PhysicsBody_clone (drop i bs)\<rparr>"
proof (induction bs world i rule: clone_loop.induct)
  case (1 bs world i)
  show ?case
  proof (cases "i < length bs")
    case True
    have "clone_loop bs world i
        = clone_loop bs (addBody world (PhysicsBody_clone (bs ! i))) (i + 1)"
      using True by (subst clone_loop.simps) simp
    also have "\<dots> = (addBody world (PhysicsBody_clone (bs ! i)))
        \<lparr>bodies := bodies (addBody world (PhysicsBody_clone (bs ! i)))
           @ map PhysicsBody_clone (drop (i + 1) bs)\<rparr>"
      using "1.IH" [OF True] .
    also have "\<dots> = world\<lparr>bodies := bodies world @ map PhysicsBody_clone (drop i bs)\<rparr>"
      by (simp add: addBody_def Cons_nth_drop_Suc [OF True, symmetric])
    finally show ?thesis .
  next
    case False
    then show ?thesis by (subst clone_loop.simps) simp
  qed
qed

lemma bodies_PhysicsWorld_clone:
  "bodies (PhysicsWorld_clone w) = map PhysicsBody_clone (bodies w)"
  by (simp add: PhysicsWorld_clone_def Let_def clone_loop_eq PhysicsWorld_new_def)

lemma ticks_PhysicsWorld_clone: "ticks (PhysicsWorld_clone w) = ticks w"
  by (simp add: PhysicsWorld_clone_def Let_def clone_loop_eq PhysicsWorld_new_def)

lemma length_predict_step:
  "predict_step w = Inr w' \<Longrightarrow> length (bodies w') = length (bodies w) \<and> 1 < length (bodies w)"
  by (auto simp: predict_step_def applyGravitationalForces_def bodies_PhysicsWorld_update
      split: if_splits sum.splits dest: length_gravity_outer)

lemma predict_iteration_world:
  "(case predict_iteration (w, pts) of Inl e \<Rightarrow> Inl e | Inr s \<Rightarrow> Inr (fst s)) = predict_step w"
  by (auto simp: predict_iteration_def split: sum.splits dest: length_predict_step)

lemma PhysicsWorld_clone_eq:
  "PhysicsWorld_clone w = \<lparr>ticks = ticks w, bodies = map PhysicsBody_clone (bodies w)\<rparr>"
  by (simp add: PhysicsWorld_clone_def Let_def clone_loop_eq PhysicsWorld_new_def)

lemma PhysicsWorld_update_eq:
  "PhysicsWorld_update w dt
     = \<lparr>ticks = ticks w + 1, bodies = map (\<lambda>b. PhysicsBody_update b dt) (bodies w)\<rparr>"
  by (simp add: PhysicsWorld_update_def Let_def update_loop_eq)

section \<open>The forecast loop\<close>

lemma predict_step_Inr:
  assumes "predict_step w = Inr w'"
  shows "1 < length (bodies w)"
    and "magnitude (getVelocity (bodies w ! 1)) \<noteq> 0"
    and "applyGravitationalForces GRAVITATIONAL_CONSTANT
           (PhysicsWorld_update w (20 / magnitude (getVelocity (bodies w ! 1)))) = Inr w'"
  using assms by (auto simp: predict_step_def fdiv_def split: if_splits)

lemma predict_steps_front:
  "predict_step w = Inr w1 \<Longrightarrow> predict_steps (Suc n) w = predict_steps n w1"
  by (induction n) simp_all

lemma predict_iteration_Inr:
  assumes "predict_iteration s = Inr s1"
  shows "predict_step (fst s) = Inr (fst s1)"
    and "snd s1 = snd s @ [getPosition (bodies (fst s1) ! 1)]"
  using assms by (auto simp: predict_iteration_def split: sum.splits if_splits)

lemma predict_loop_trace:
  "predict_loop h i s = Inr s' \<Longrightarrow> i \<le> h \<Longrightarrow>
   length (snd s') = length (snd s) + (h - i)
   \<and> take (length (snd s)) (snd s') = snd s
   \<and> predict_steps (h - i) (fst s) = Inr (fst s')
   \<and> (\<forall>k < h - i. \<exists>wk. predict_steps (Suc k) (fst s) = Inr wk
          \<and> snd s' ! (length (snd s) + k) = getPosition (bodies wk ! 1))"
proof (induction h i s arbitrary: s' rule: predict_loop.induct)
  case (1 h i s)
  show ?case
  proof (cases "i < h")
    case False
    then have "s' = s" using "1.prems"(1) by (subst (asm) predict_loop.simps) simp
    then show ?thesis using False by simp
  next
    case True
    then obtain s1 where it: "predict_iteration s = Inr s1"
      and lp: "predict_loop h (i + 1) s1 = Inr s'"
      using "1.prems"(1) by (subst (asm) predict_loop.simps) (auto split: sum.splits)
    note st = predict_iteration_Inr [OF it]
    have ih: "length (snd s') = length (snd s1) + (h - (i + 1))
       \<and> take (length (snd s1)) (snd s') = snd s1
       \<and> predict_steps (h - (i + 1)) (fst s1) = Inr (fst s')
       \<and> (\<forall>k < h - (i + 1). \<exists>wk. predict_steps (Suc k) (fst s1) = Inr wk
              \<and> snd s' ! (length (snd s1) + k) = getPosition (bodies wk ! 1))"
      using True by (intro "1.IH" [OF True it lp]) simp
    have len1: "length (snd s1) = length (snd s) + 1" using st(2) by simp
    have hi: "h - i = Suc (h - (i + 1))" using True by simp
    have a: "length (snd s') = length (snd s) + (h - i)"
      using ih len1 True by simp
    have "take (length (snd s)) (snd s') = take (length (snd s)) (take (length (snd s1)) (snd s'))"
      using len1 by (simp add: min_def)
    also have "\<dots> = take (length (snd s)) (snd s1)" using ih by simp
    also have "\<dots> = snd s" using st(2) by simp
    finally have b: "take (length (snd s)) (snd s') = snd s" .
    have c: "predict_steps (h - i) (fst s) = Inr (fst s')"
      unfolding hi predict_steps_front [OF st(1)] using ih by simp
    have d: "\<exists>wk. predict_steps (Suc k) (fst s) = Inr wk
          \<and> snd s' ! (length (snd s) + k) = getPosition (bodies wk ! 1)" if "k < h - i" for k
    proof (cases k)
      case 0
      have "snd s' ! length (snd s) = take (length (snd s1)) (snd s') ! length (snd s)"
        using len1 by simp
      also have "\<dots> = snd s1 ! length (snd s)" using ih by simp
      also have "\<dots> = getPosition (bodies (fst s1) ! 1)" using st(2) by simp
      finally show ?thesis using 0 st(1) by simp
    next
      case (Suc k')
      then have "k' < h - (i + 1)" using that by simp
      then obtain wk where "predict_steps (Suc k') (fst s1) = Inr wk"
        and "snd s' ! (length (snd s1) + k') = getPosition (bodies wk ! 1)"
        using ih by blast
      then show ?thesis
        unfolding Suc predict_steps_front [OF st(1)] using len1 by (intro exI [of _ wk]) simp
    qed
    show ?thesis using a b c d by blast
  qed
qed

text \<open>
  C6, as amended. The forecast of horizon \<open>n\<close> on the cloned world records \<open>n\<close> points.
  Pass \<open>k\<close> starts from the world \<open>w\<close> left by the passes before it, takes the step
  size \<open>dt\<close> with \<open>dt * speed = 20\<close> for the speed of body 1 in \<open>w\<close>, updates the world
  with \<open>dt\<close>, and only then applies the forces, which the update of the next pass
  consumes; point \<open>k\<close> is the position of body 1 after the update. The step size
  varies from pass to pass with the speed.
\<close>

theorem predict_steps_then_applies_forces:
  assumes "predict horizon world = Inr (world_copy, points)"
  shows "length points = horizon
    \<and> predict_steps horizon (PhysicsWorld_clone world) = Inr world_copy
    \<and> (\<forall>k < horizon. \<exists>w dt w'.
          predict_steps k (PhysicsWorld_clone world) = Inr w
        \<and> 1 < length (bodies w)
        \<and> dt * magnitude (getVelocity (bodies w ! 1)) = 20
        \<and> applyGravitationalForces GRAVITATIONAL_CONSTANT (PhysicsWorld_update w dt) = Inr w'
        \<and> predict_steps (Suc k) (PhysicsWorld_clone world) = Inr w'
        \<and> points ! k = getPosition (bodies (PhysicsWorld_update w dt) ! 1))"
proof -
  have t: "length points = horizon
     \<and> predict_steps horizon (PhysicsWorld_clone world) = Inr world_copy
     \<and> (\<forall>k < horizon. \<exists>wk. predict_steps (Suc k) (PhysicsWorld_clone world) = Inr wk
            \<and> points ! k = getPosition (bodies wk ! 1))"
    using predict_loop_trace [of horizon 0 "(PhysicsWorld_clone world, [])" "(world_copy, points)"]
      assms
    by (simp add: predict_def del: predict_steps.simps)
  have step: "\<exists>w dt w'.
          predict_steps k (PhysicsWorld_clone world) = Inr w
        \<and> 1 < length (bodies w)
        \<and> dt * magnitude (getVelocity (bodies w ! 1)) = 20
        \<and> applyGravitationalForces GRAVITATIONAL_CONSTANT (PhysicsWorld_update w dt) = Inr w'
        \<and> predict_steps (Suc k) (PhysicsWorld_clone world) = Inr w'
        \<and> points ! k = getPosition (bodies (PhysicsWorld_update w dt) ! 1)"
    if kh: "k < horizon" for k
  proof -
    obtain wk where wk: "predict_steps (Suc k) (PhysicsWorld_clone world) = Inr wk"
      and pk: "points ! k = getPosition (bodies wk ! 1)"
      using t kh by blast
    obtain w where w: "predict_steps k (PhysicsWorld_clone world) = Inr w"
      and ps: "predict_step w = Inr wk"
      using wk by (auto split: sum.splits)
    define dt where "dt = 20 / magnitude (getVelocity (bodies w ! 1))"
    note f = predict_step_Inr [OF ps]
    have g: "applyGravitationalForces GRAVITATIONAL_CONSTANT (PhysicsWorld_update w dt) = Inr wk"
      using f(3) by (simp add: dt_def)
    have len: "1 < length (bodies (PhysicsWorld_update w dt))"
      using f(1) by (simp add: bodies_PhysicsWorld_update)
    have "map position (bodies wk) ! 1 = map position (bodies (PhysicsWorld_update w dt)) ! 1"
      using applyGravitationalForces_keeps(3) [OF g] by simp
    then have "position (bodies wk ! 1) = position (bodies (PhysicsWorld_update w dt) ! 1)"
      using len applyGravitationalForces_keeps(2) [OF g] by simp
    then have "points ! k = getPosition (bodies (PhysicsWorld_update w dt) ! 1)"
      using pk by (simp add: getPosition_def)
    moreover have "dt * magnitude (getVelocity (bodies w ! 1)) = 20"
      using f(2) by (simp add: dt_def)
    ultimately show ?thesis using w f(1) g wk by blast
  qed
  show ?thesis using t step by simp
qed

theorem predict_steps_then_applies_forces_witness:
  "predict 1 (addBody (addBody PhysicsWorld_new
       (PhysicsBody_new zero zero 1))
       (PhysicsBody_new \<lparr>vx = 10, vy = 0\<rparr> \<lparr>vx = 20, vy = 0\<rparr> 1))
     = Inr (\<lparr>ticks = 1,
             bodies = [\<lparr>position = zero, velocity = zero,
                         acceleration = \<lparr>vx = 667000 / 9, vy = 0\<rparr>, mass = 1\<rparr>,
                       \<lparr>position = \<lparr>vx = 30, vy = 0\<rparr>, velocity = \<lparr>vx = 20, vy = 0\<rparr>,
                         acceleration = \<lparr>vx = - (667000 / 9), vy = 0\<rparr>, mass = 1\<rparr>]\<rparr>,
            [\<lparr>vx = 30, vy = 0\<rparr>])
   \<and> predict_steps 1 (PhysicsWorld_clone (addBody (addBody PhysicsWorld_new
       (PhysicsBody_new zero zero 1))
       (PhysicsBody_new \<lparr>vx = 10, vy = 0\<rparr> \<lparr>vx = 20, vy = 0\<rparr> 1)))
     = Inr \<lparr>ticks = 1,
             bodies = [\<lparr>position = zero, velocity = zero,
                         acceleration = \<lparr>vx = 667000 / 9, vy = 0\<rparr>, mass = 1\<rparr>,
                       \<lparr>position = \<lparr>vx = 30, vy = 0\<rparr>, velocity = \<lparr>vx = 20, vy = 0\<rparr>,
                         acceleration = \<lparr>vx = - (667000 / 9), vy = 0\<rparr>, mass = 1\<rparr>]\<rparr>"
proof -
  define w0 where "w0 = addBody (addBody PhysicsWorld_new
       (PhysicsBody_new zero zero 1))
       (PhysicsBody_new \<lparr>vx = 10, vy = 0\<rparr> \<lparr>vx = 20, vy = 0\<rparr> 1)"
  define w1 where "w1 = \<lparr>ticks = 1,
             bodies = [\<lparr>position = zero, velocity = zero,
                         acceleration = \<lparr>vx = 667000 / 9, vy = 0\<rparr>, mass = 1\<rparr>,
                       \<lparr>position = \<lparr>vx = 30, vy = 0\<rparr>, velocity = \<lparr>vx = 20, vy = 0\<rparr>,
                         acceleration = \<lparr>vx = - (667000 / 9), vy = 0\<rparr>, mass = 1\<rparr>]\<rparr>"
  have e: "predict 1 w0 = Inr (w1, [\<lparr>vx = 30, vy = 0\<rparr>])"
    by (simp add: w0_def w1_def predict_def predict_loop.simps predict_iteration_def
        predict_step_def PhysicsWorld_clone_eq PhysicsWorld_update_eq addBody_def
        PhysicsWorld_new_def PhysicsBody_clone_def PhysicsBody_new_def Vector2D_default_def
        PhysicsBody_update_def Let_def getVelocity_def getPosition_def magnitude_horizontal
        fdiv_def fmul_def applyGravitationalForces_def gravity_outer.simps gravity_inner.simps
        gravity_pair_def pairForce_def applyPair_def applyForce_def normalized_def vdiv_def
        vsub_def vadd_def vscale_def vneg_def zero_def GRAVITATIONAL_CONSTANT_def)
  show ?thesis
    using e predict_steps_then_applies_forces [OF e] unfolding w0_def w1_def by simp
qed

text \<open>
  C6 as stated fails: applying the forces before the update, as the claim orders them,
  leaves body 1 at \<open>(- 666970, 0)\<close>, where the loop of \<open>main\<close> leaves it at \<open>(30, 0)\<close>.
\<close>

theorem predict_order_counterexample:
  "predict_step \<lparr>ticks = 0,
       bodies = [PhysicsBody_new zero zero 1,
                 PhysicsBody_new \<lparr>vx = 10, vy = 0\<rparr> \<lparr>vx = 20, vy = 0\<rparr> 1]\<rparr>
     = Inr \<lparr>ticks = 1,
             bodies = [\<lparr>position = zero, velocity = zero,
                         acceleration = \<lparr>vx = 667000 / 9, vy = 0\<rparr>, mass = 1\<rparr>,
                       \<lparr>position = \<lparr>vx = 30, vy = 0\<rparr>, velocity = \<lparr>vx = 20, vy = 0\<rparr>,
                         acceleration = \<lparr>vx = - (667000 / 9), vy = 0\<rparr>, mass = 1\<rparr>]\<rparr>
   \<and> predict_step_as_specified \<lparr>ticks = 0,
       bodies = [PhysicsBody_new zero zero 1,
                 PhysicsBody_new \<lparr>vx = 10, vy = 0\<rparr> \<lparr>vx = 20, vy = 0\<rparr> 1]\<rparr>
     = Inr \<lparr>ticks = 1,
             bodies = [\<lparr>position = \<lparr>vx = 667000, vy = 0\<rparr>,
                         velocity = \<lparr>vx = 667000, vy = 0\<rparr>,
                         acceleration = zero, mass = 1\<rparr>,
                       \<lparr>position = \<lparr>vx = - 666970, vy = 0\<rparr>,
                         velocity = \<lparr>vx = - 666980, vy = 0\<rparr>,
                         acceleration = zero, mass = 1\<rparr>]\<rparr>
   \<and> predict_step \<lparr>ticks = 0,
       bodies = [PhysicsBody_new zero zero 1,
                 PhysicsBody_new \<lparr>vx = 10, vy = 0\<rparr> \<lparr>vx = 20, vy = 0\<rparr> 1]\<rparr>
     \<noteq> predict_step_as_specified \<lparr>ticks = 0,
       bodies = [PhysicsBody_new zero zero 1,
                 PhysicsBody_new \<lparr>vx = 10, vy = 0\<rparr> \<lparr>vx = 20, vy = 0\<rparr> 1]\<rparr>"
  by (simp add: predict_step_def predict_step_as_specified_def PhysicsWorld_update_eq
      PhysicsBody_new_def Vector2D_default_def
      PhysicsBody_update_def Let_def getVelocity_def getPosition_def magnitude_horizontal
      fdiv_def fmul_def applyGravitationalForces_def gravity_outer.simps gravity_inner.simps
      gravity_pair_def pairForce_def applyPair_def applyForce_def normalized_def vdiv_def
      vsub_def vadd_def vscale_def vneg_def zero_def GRAVITATIONAL_CONSTANT_def)

section \<open>Worlds in memory\<close>

lemma load_cong: "(\<And>a. a \<in> set as \<Longrightarrow> cells m' a = cells m a) \<Longrightarrow> load m' as = load m as"
proof (induction as)
  case Nil
  show ?case by simp
next
  case (Cons a as)
  have "load m' as = load m as" using Cons.IH Cons.prems by simp
  moreover have "cells m' a = cells m a" using Cons.prems by simp
  ultimately show ?case by (simp split: option.splits cell.splits)
qed

lemma load_length: "load m as = Inr bs \<Longrightarrow> length bs = length as"
  by (induction as arbitrary: bs) (auto split: option.splits cell.splits sum.splits)

lemma load_Inr_iff:
  "load m as = Inr bs \<longleftrightarrow> map (cells m) as = map (\<lambda>b. Some (Body b)) bs"
proof (induction as arbitrary: bs)
  case Nil
  show ?case by auto
next
  case (Cons a as)
  note ih = Cons.IH
  show ?case
  proof (cases "cells m a")
    case None
    then show ?thesis by (cases bs) simp_all
  next
    case (Some c)
    show ?thesis
    proof (cases c)
      case (Poison e)
      then show ?thesis using Some by (cases bs) simp_all
    next
      case (Body b)
      show ?thesis
      proof (cases bs)
        case Nil
        then show ?thesis using Some Body by (simp split: sum.splits)
      next
        case (Cons b' bs')
        have "load m as = Inr bs' \<longleftrightarrow> map (cells m) as = map (\<lambda>b. Some (Body b)) bs'"
          by (rule ih)
        then show ?thesis using Some Body Cons by (auto split: sum.splits)
      qed
    qed
  qed
qed

lemma load_bodies:
  "(\<And>a. a \<in> set as \<Longrightarrow> \<exists>b. cells m a = Some (Body b)) \<Longrightarrow> \<exists>bs. load m as = Inr bs"
proof (induction as)
  case Nil
  show ?case by simp
next
  case (Cons a as)
  obtain b where b: "cells m a = Some (Body b)" using Cons.prems [of a] by auto
  obtain bs where bs: "load m as = Inr bs" using Cons.IH Cons.prems by auto
  show ?case by (simp add: b bs)
qed

lemma cells_store_other: "a \<notin> set as \<Longrightarrow> cells (store_cells m as cs) a = cells m a"
proof -
  assume "a \<notin> set as"
  then have "a \<notin> fst ` set (zip as cs)" by (auto dest: set_zip_leftD)
  then have "map_of (zip as cs) a = None" by (simp add: map_of_eq_None_iff)
  then show ?thesis by (simp add: store_cells_def map_add_def)
qed

lemma cells_store_nth:
  "distinct as \<Longrightarrow> length cs = length as \<Longrightarrow> i < length as \<Longrightarrow>
   cells (store_cells m as cs) (as ! i) = Some (cs ! i)"
  by (simp add: store_cells_def map_add_def map_of_zip_nth)

lemma next_free_store_cells: "next_free (store_cells m as cs) = next_free m"
  by (simp add: store_cells_def)

lemma load_store_same:
  "distinct as \<Longrightarrow> length bs = length as \<Longrightarrow> load (store_cells m as (map Body bs)) as = Inr bs"
  unfolding load_Inr_iff by (rule nth_equalityI) (simp_all add: cells_store_nth)

lemma obj_addBody_eq:
  "obj_addBody (m, w) b
     = (m\<lparr>next_free := next_free m + 1, cells := (cells m)(next_free m \<mapsto> Body b)\<rparr>,
        w\<lparr>obj_bodies := obj_bodies w @ [next_free m]\<rparr>)"
  by (simp add: obj_addBody_def alloc_def)

text \<open>
  The loop of \<open>removeBody\<close> on an address that is no element of the vector, and on the
  address of element \<open>k\<close>.
\<close>

lemma obj_removeBody_loop_fresh:
  "param \<notin> set (obj_bodies w) \<Longrightarrow> obj_removeBody_loop param w i = w"
proof (induction param w i rule: obj_removeBody_loop.induct)
  case (1 param w i)
  show ?case
  proof (cases "i < length (obj_bodies w)")
    case True
    then have ne: "obj_bodies w ! i \<noteq> param" using "1.prems" nth_mem by blast
    have "obj_removeBody_loop param w i = obj_removeBody_loop param w (i + 1)"
      using True ne by (subst obj_removeBody_loop.simps) simp
    also have "\<dots> = w" using "1.IH" [OF True ne "1.prems"] .
    finally show ?thesis .
  next
    case False
    then show ?thesis by (subst obj_removeBody_loop.simps) simp
  qed
qed

lemma obj_removeBody_loop_element:
  "distinct (obj_bodies w) \<Longrightarrow> k < length (obj_bodies w) \<Longrightarrow> i \<le> k \<Longrightarrow>
   obj_removeBody_loop (obj_bodies w ! k) w i = w\<lparr>obj_bodies := erase (obj_bodies w) k\<rparr>"
proof (induction "obj_bodies w ! k" w i rule: obj_removeBody_loop.induct)
  case (1 w i)
  have il: "i < length (obj_bodies w)" using "1.prems" by simp
  show ?case
  proof (cases "i = k")
    case True
    then show ?thesis using il by (subst obj_removeBody_loop.simps) simp
  next
    case False
    then have ne: "obj_bodies w ! i \<noteq> obj_bodies w ! k"
      using "1.prems" il by (simp add: nth_eq_iff_index_eq)
    have "obj_removeBody_loop (obj_bodies w ! k) w i
        = obj_removeBody_loop (obj_bodies w ! k) w (i + 1)"
      using il ne by (subst obj_removeBody_loop.simps) simp
    also have "\<dots> = w\<lparr>obj_bodies := erase (obj_bodies w) k\<rparr>"
      using "1.hyps" [OF il ne] "1.prems" False by simp
    finally show ?thesis .
  qed
qed

lemma obj_clone_loop_eq:
  "obj_clone_loop bs mw i = foldl obj_addBody mw (map PhysicsBody_clone (drop i bs))"
proof (induction bs mw i rule: obj_clone_loop.induct)
  case (1 bs mw i)
  show ?case
  proof (cases "i < length bs")
    case True
    have "obj_clone_loop bs mw i
        = obj_clone_loop bs (obj_addBody mw (PhysicsBody_clone (bs ! i))) (i + 1)"
      using True by (subst obj_clone_loop.simps) simp
    also have "\<dots> = foldl obj_addBody (obj_addBody mw (PhysicsBody_clone (bs ! i)))
        (map PhysicsBody_clone (drop (i + 1) bs))"
      using "1.IH" [OF True] .
    also have "\<dots> = foldl obj_addBody mw (map PhysicsBody_clone (drop i bs))"
      by (simp add: Cons_nth_drop_Suc [OF True, symmetric])
    finally show ?thesis .
  next
    case False
    then show ?thesis by (subst obj_clone_loop.simps) simp
  qed
qed

text \<open>
  Adding bodies one after the other allocates consecutive new cells, appends their
  addresses, and leaves every cell allocated before as it was.
\<close>

lemma foldl_obj_addBody:
  "foldl obj_addBody (m, w) xs = (m', w') \<Longrightarrow>
     next_free m' = next_free m + length xs
     \<and> obj_bodies w' = obj_bodies w @ [next_free m..<next_free m + length xs]
     \<and> obj_ticks w' = obj_ticks w
     \<and> (\<forall>a. a < next_free m \<longrightarrow> cells m' a = cells m a)
     \<and> (\<forall>i<length xs. cells m' (next_free m + i) = Some (Body (xs ! i)))"
proof (induction xs arbitrary: m w)
  case Nil
  then show ?case by simp
next
  case (Cons x xs)
  define m1 where "m1 = m\<lparr>next_free := next_free m + 1,
    cells := (cells m)(next_free m \<mapsto> Body x)\<rparr>"
  define w1 where "w1 = w\<lparr>obj_bodies := obj_bodies w @ [next_free m]\<rparr>"
  have "foldl obj_addBody (m1, w1) xs = (m', w')"
    using Cons.prems by (simp add: obj_addBody_eq m1_def w1_def)
  note ih = Cons.IH [OF this]
  have nf: "next_free m1 = next_free m + 1" by (simp add: m1_def)
  have a: "next_free m' = next_free m + length (x # xs)" using ih nf by simp
  have u: "[next_free m..<next_free m + length (x # xs)]
      = next_free m # [next_free m1..<next_free m1 + length xs]"
    by (simp add: nf upt_conv_Cons del: upt_Suc)
  have b: "obj_bodies w' = obj_bodies w @ [next_free m..<next_free m + length (x # xs)]"
    using ih unfolding u by (simp add: w1_def)
  have c: "obj_ticks w' = obj_ticks w" using ih by (simp add: w1_def)
  have d: "cells m' a = cells m a" if "a < next_free m" for a
  proof -
    have "cells m' a = cells m1 a" using ih nf that by simp
    then show ?thesis using that by (simp add: m1_def)
  qed
  have e: "cells m' (next_free m + i) = Some (Body ((x # xs) ! i))" if "i < length (x # xs)" for i
  proof (cases i)
    case 0
    have "cells m' (next_free m) = cells m1 (next_free m)" using ih nf by simp
    then show ?thesis using 0 by (simp add: m1_def)
  next
    case (Suc j)
    then have "j < length xs" using that by simp
    then have "cells m' (next_free m1 + j) = Some (Body (xs ! j))" using ih by blast
    then show ?thesis using Suc nf by simp
  qed
  show ?case using a b c d e by blast
qed

lemma obj_clone_effect:
  assumes "obj_clone m x = (m', w')"
  shows "next_free m' = next_free m + length (bodies x)"
    and "obj_bodies w' = [next_free m..<next_free m + length (bodies x)]"
    and "obj_ticks w' = ticks x"
    and "a < next_free m \<Longrightarrow> cells m' a = cells m a"
    and "load m' (obj_bodies w') = Inr (bodies (PhysicsWorld_clone x))"
proof -
  have f: "foldl obj_addBody (m, PhysicsWorld_obj_new\<lparr>obj_ticks := ticks x\<rparr>)
      (map PhysicsBody_clone (bodies x)) = (m', w')"
    using assms by (simp add: obj_clone_def Let_def obj_clone_loop_eq)
  note e = foldl_obj_addBody [OF f]
  show n: "next_free m' = next_free m + length (bodies x)" using e by simp
  show o: "obj_bodies w' = [next_free m..<next_free m + length (bodies x)]"
    using e by (simp add: PhysicsWorld_obj_new_def)
  show "obj_ticks w' = ticks x" using e by (simp add: PhysicsWorld_obj_new_def)
  show "a < next_free m \<Longrightarrow> cells m' a = cells m a" using e by simp
  have "map (cells m') [next_free m..<next_free m + length (bodies x)]
      = map (\<lambda>b. Some (Body b)) (map PhysicsBody_clone (bodies x))"
  proof (rule nth_equalityI)
    show "length (map (cells m') [next_free m..<next_free m + length (bodies x)])
        = length (map (\<lambda>b. Some (Body b)) (map PhysicsBody_clone (bodies x)))"
      by simp
  next
    fix i
    assume "i < length (map (cells m') [next_free m..<next_free m + length (bodies x)])"
    then have i: "i < length (bodies x)" by simp
    then have "cells m' (next_free m + i)
        = Some (Body (map PhysicsBody_clone (bodies x) ! i))"
      using e by simp
    then show "map (cells m') [next_free m..<next_free m + length (bodies x)] ! i
        = map (\<lambda>b. Some (Body b)) (map PhysicsBody_clone (bodies x)) ! i"
      using i by simp
  qed
  then show "load m' (obj_bodies w') = Inr (bodies (PhysicsWorld_clone x))"
    unfolding o load_Inr_iff bodies_PhysicsWorld_clone .
qed

lemma action_sem_length:
  "action_sem a w = Inr w' \<Longrightarrow> length (bodies w') = length (bodies w)"
proof (cases a)
  case (Gravity strength)
  assume "action_sem a w = Inr w'"
  then show ?thesis using Gravity
    by (auto simp: applyGravitationalForces_def split: sum.splits dest: length_gravity_outer)
next
  case PredictStep
  assume "action_sem a w = Inr w'"
  then show ?thesis using PredictStep length_predict_step by simp
qed (auto simp: at_body_def bodies_PhysicsWorld_update split: if_splits)

lemma well_formedD:
  assumes "well_formed s" and "vars s v = Inr w"
  shows "distinct (obj_bodies w)"
    and "a \<in> set (obj_bodies w) \<Longrightarrow> a < next_free (mem s)"
    and "a \<in> set (obj_bodies w) \<Longrightarrow> \<exists>b. cells (mem s) a = Some (Body b)"
  using assms unfolding well_formed_def by blast+

lemma well_formed_disjoint:
  "well_formed s \<Longrightarrow> v \<noteq> v' \<Longrightarrow> set (elems s v) \<inter> set (elems s v') = {}"
  by (cases v; cases v') (auto simp: well_formed_def)

lemma elems_allocated: "well_formed s \<Longrightarrow> a \<in> set (elems s v) \<Longrightarrow> a < next_free (mem s)"
proof (cases "vars s v")
  case (Inl e)
  assume "a \<in> set (elems s v)"
  then show ?thesis using Inl by (simp add: elems_def)
next
  case (Inr w)
  assume "well_formed s" and "a \<in> set (elems s v)"
  then show ?thesis using well_formedD(2) [of s v w a] Inr by (simp add: elems_def)
qed

lemma view_Inr:
  assumes "well_formed s" and "vars s v = Inr w"
  shows "\<exists>bs. load (mem s) (obj_bodies w) = Inr bs \<and> length bs = length (obj_bodies w)
           \<and> view s v = Inr \<lparr>ticks = obj_ticks w, bodies = bs\<rparr>"
proof -
  obtain bs where bs: "load (mem s) (obj_bodies w) = Inr bs"
    using load_bodies [of "obj_bodies w" "mem s"] well_formedD(3) [OF assms] by blast
  then show ?thesis using load_length [OF bs] by (simp add: view_def assms(2))
qed

lemma load_Inr_cells:
  "load m as = Inr bs \<Longrightarrow> a \<in> set as \<Longrightarrow> \<exists>b. cells m a = Some (Body b)"
  by (induction as arbitrary: bs) (auto split: option.splits cell.splits sum.splits)

text \<open>Every statement is confined to the vector of its target.\<close>

lemma confined_unchanged: "well_formed s \<Longrightarrow> confined t s s"
  unfolding confined_def using well_formedD [of s] by (auto simp: elems_def)

lemma confined_AddBody:
  assumes wf: "well_formed s"
  shows "confined v s (run_stmt (AddBody v b) s)"
proof (cases "vars s v")
  case (Inl e)
  then show ?thesis using confined_unchanged [OF wf] by simp
next
  case (Inr w)
  have eq: "run_stmt (AddBody v b) s
      = s\<lparr>mem := (mem s)\<lparr>next_free := next_free (mem s) + 1,
              cells := (cells (mem s))(next_free (mem s) \<mapsto> Body b)\<rparr>,
          vars := (vars s)(v := Inr (w\<lparr>obj_bodies := obj_bodies w @ [next_free (mem s)]\<rparr>))\<rparr>"
    by (simp add: Inr obj_addBody_eq)
  have fresh: "next_free (mem s) \<notin> set (obj_bodies w)"
    using well_formedD(2) [OF wf Inr, of "next_free (mem s)"] by auto
  show ?thesis
    unfolding eq confined_def using well_formedD [OF wf Inr] fresh
    by (auto simp: elems_def Inr less_Suc_eq)
qed

lemma run_stmt_RemoveBody:
  assumes wf: "well_formed s"
  shows "run_stmt (RemoveBody v b) s
     = (case vars s v of
          Inl e \<Rightarrow> s
        | Inr w \<Rightarrow> s\<lparr>mem := (mem s)\<lparr>next_free := next_free (mem s) + 1,
                     cells := (cells (mem s))(next_free (mem s) \<mapsto> Body b)\<rparr>\<rparr>)"
proof (cases "vars s v")
  case (Inl e)
  then show ?thesis by simp
next
  case (Inr w)
  have fresh: "next_free (mem s) \<notin> set (obj_bodies w)"
    using well_formedD(2) [OF wf Inr, of "next_free (mem s)"] by auto
  have "(vars s)(v := Inr w) = vars s" using Inr by auto
  then show ?thesis
    by (simp add: Inr obj_removeBody_def alloc_def obj_removeBody_loop_fresh [OF fresh])
qed

lemma confined_RemoveBody:
  assumes wf: "well_formed s"
  shows "confined v s (run_stmt (RemoveBody v b) s)"
proof (cases "vars s v")
  case (Inl e)
  then show ?thesis using confined_unchanged [OF wf] by simp
next
  case (Inr w)
  have eq: "run_stmt (RemoveBody v b) s
      = s\<lparr>mem := (mem s)\<lparr>next_free := next_free (mem s) + 1,
              cells := (cells (mem s))(next_free (mem s) \<mapsto> Body b)\<rparr>\<rparr>"
    using run_stmt_RemoveBody [OF wf, of v b] Inr by simp
  show ?thesis
    unfolding eq confined_def using well_formedD [OF wf Inr]
    by (auto simp: elems_def Inr less_Suc_eq)
qed

lemma confined_Act:
  assumes wf: "well_formed s"
  shows "confined v s (run_stmt (Act v a) s)"
proof (cases "vars s v")
  case (Inl e)
  then show ?thesis using confined_unchanged [OF wf] by simp
next
  case (Inr w)
  note sv = Inr
  obtain bs where bs: "load (mem s) (obj_bodies w) = Inr bs"
    and len: "length bs = length (obj_bodies w)"
    and vw: "view s v = Inr \<lparr>ticks = obj_ticks w, bodies = bs\<rparr>"
    using view_Inr [OF wf Inr] by blast
  show ?thesis
  proof (cases "action_sem a \<lparr>ticks = obj_ticks w, bodies = bs\<rparr>")
    case (Inl e)
    have eq: "run_stmt (Act v a) s
        = s\<lparr>mem := store_cells (mem s) (obj_bodies w)
                     (replicate (length (obj_bodies w)) (Poison e)),
            vars := (vars s)(v := Inl e)\<rparr>"
      by (simp add: Inr vw Inl)
    show ?thesis
      unfolding eq confined_def
      by (simp add: elems_def Inr next_free_store_cells cells_store_other)
  next
    case (Inr x')
    have eq: "run_stmt (Act v a) s
        = s\<lparr>mem := store_cells (mem s) (obj_bodies w) (map Body (bodies x')),
            vars := (vars s)(v := Inr (w\<lparr>obj_ticks := ticks x'\<rparr>))\<rparr>"
      by (simp add: sv vw Inr)
    have l: "length (bodies x') = length (obj_bodies w)"
      using action_sem_length [OF Inr] len by simp
    have body: "\<exists>b. cells (store_cells (mem s) (obj_bodies w) (map Body (bodies x'))) a
        = Some (Body b)" if am: "a \<in> set (obj_bodies w)" for a
    proof -
      obtain i where i: "i < length (obj_bodies w)" and a: "a = obj_bodies w ! i"
        using am by (auto simp: in_set_conv_nth)
      show ?thesis
        unfolding a
        using cells_store_nth [OF well_formedD(1) [OF wf sv] _ i,
            of "map Body (bodies x')" "mem s"] l i
        by simp
    qed
    show ?thesis
      unfolding eq confined_def
      using well_formedD [OF wf sv] body
      by (simp add: elems_def sv next_free_store_cells cells_store_other)
  qed
qed

lemma confined_Clone:
  assumes wf: "well_formed s"
  shows "confined Copy s (run_stmt Clone s)"
proof (cases "view s Live")
  case (Inl e)
  then show ?thesis unfolding confined_def by simp
next
  case (Inr x)
  obtain m' w' where c: "obj_clone (mem s) x = (m', w')" by (cases "obj_clone (mem s) x")
  note e = obj_clone_effect [OF c]
  have eq: "run_stmt Clone s = s\<lparr>mem := m', vars := (vars s)(Copy := Inr w')\<rparr>"
    by (simp add: Inr c)
  have body: "\<exists>b. cells m' a = Some (Body b)" if "a \<in> set (obj_bodies w')" for a
    using load_Inr_cells [OF e(5) that] .
  show ?thesis
    unfolding eq confined_def using e(1,2,4) body by auto
qed

lemma confined_run_stmt: "well_formed s \<Longrightarrow> confined (target c) s (run_stmt c s)"
  by (cases c)
     (simp_all add: confined_AddBody confined_RemoveBody confined_Act confined_Clone
        del: run_stmt.simps)

text \<open>
  A confined change keeps the state well formed and leaves the world of the other
  variable as it was; so every state that \<open>main\<close> can reach is well formed.
\<close>

lemma confined_well_formed:
  assumes wf: "well_formed s" and c: "confined t s s'"
  shows "well_formed s'"
proof -
  have other: "vars s' v = vars s v" if "v \<noteq> t" for v
    using c that by (simp add: confined_def)
  have grow: "next_free (mem s) \<le> next_free (mem s')"
    using c by (simp add: confined_def)
  have keep: "cells (mem s') a = cells (mem s) a"
    if "a \<notin> set (elems s t)" and "a < next_free (mem s)" for a
    using c that by (simp add: confined_def)
  have new: "distinct (obj_bodies w')
      \<and> (\<forall>a \<in> set (obj_bodies w').
            (a \<in> set (elems s t) \<or> next_free (mem s) \<le> a)
            \<and> a < next_free (mem s')
            \<and> (\<exists>b. cells (mem s') a = Some (Body b)))"
    if "vars s' t = Inr w'" for w'
    using c that by (simp add: confined_def)
  have each: "distinct (obj_bodies w)
      \<and> (\<forall>a \<in> set (obj_bodies w).
            a < next_free (mem s') \<and> (\<exists>b. cells (mem s') a = Some (Body b)))"
    if v: "vars s' v = Inr w" for v w
  proof (cases "v = t")
    case True
    then show ?thesis using new [of w] v by blast
  next
    case False
    have v0: "vars s v = Inr w" using other [OF False] v by simp
    have "a < next_free (mem s') \<and> (\<exists>b. cells (mem s') a = Some (Body b))"
      if a: "a \<in> set (obj_bodies w)" for a
    proof -
      have al: "a < next_free (mem s)" using well_formedD(2) [OF wf v0 a] .
      have "a \<in> set (elems s v)" using a v0 by (simp add: elems_def)
      then have "a \<notin> set (elems s t)" using well_formed_disjoint [OF wf False] by blast
      then have "cells (mem s') a = cells (mem s) a" using keep al by simp
      then show ?thesis using al grow well_formedD(3) [OF wf v0 a] by simp
    qed
    then show ?thesis using well_formedD(1) [OF wf v0] by blast
  qed
  have old: "elems s' v = elems s v" if "v \<noteq> t" for v
    using other [OF that] by (simp add: elems_def)
  have tnew: "a \<in> set (elems s t) \<or> next_free (mem s) \<le> a" if "a \<in> set (elems s' t)" for a
  proof (cases "vars s' t")
    case (Inl e)
    then show ?thesis using that by (simp add: elems_def)
  next
    case (Inr w')
    then show ?thesis using that new [OF Inr] by (simp add: elems_def)
  qed
  have dis: "set (elems s' t) \<inter> set (elems s' v) = {}" if vt: "v \<noteq> t" for v
  proof -
    have "False" if a1: "a \<in> set (elems s' t)" and a2: "a \<in> set (elems s' v)" for a
    proof -
      have a3: "a \<in> set (elems s v)" using a2 old [OF vt] by simp
      then have "a < next_free (mem s)" using elems_allocated [OF wf] by blast
      moreover have "a \<notin> set (elems s t)" using a3 well_formed_disjoint [OF wf vt] by blast
      ultimately show False using tnew [OF a1] by simp
    qed
    then show ?thesis by blast
  qed
  have "set (elems s' Live) \<inter> set (elems s' Copy) = {}"
  proof (cases t)
    case Live
    then show ?thesis using dis [of Copy] by simp
  next
    case Copy
    then show ?thesis using dis [of Live] by (simp add: Int_commute)
  qed
  then show ?thesis unfolding well_formed_def using each by blast
qed

lemma confined_view:
  assumes wf: "well_formed s" and c: "confined t s s'" and vt: "v \<noteq> t"
  shows "view s' v = view s v"
proof -
  have other: "vars s' v = vars s v" using c vt by (simp add: confined_def)
  show ?thesis
  proof (cases "vars s v")
    case (Inl e)
    then show ?thesis using other by (simp add: view_def)
  next
    case (Inr w)
    have "cells (mem s') a = cells (mem s) a" if a: "a \<in> set (obj_bodies w)" for a
    proof -
      have al: "a < next_free (mem s)" using well_formedD(2) [OF wf Inr a] .
      have "a \<in> set (elems s v)" using a Inr by (simp add: elems_def)
      then have "a \<notin> set (elems s t)" using well_formed_disjoint [OF wf vt] by blast
      then show ?thesis using c al by (simp add: confined_def)
    qed
    then have "load (mem s') (obj_bodies w) = load (mem s) (obj_bodies w)"
      by (rule load_cong)
    then show ?thesis using other Inr by (simp add: view_def)
  qed
qed

lemma well_formed_init: "well_formed init"
  by (simp add: well_formed_def init_def PhysicsWorld_obj_new_def elems_def)

lemma well_formed_run_stmt: "well_formed s \<Longrightarrow> well_formed (run_stmt c s)"
  using confined_well_formed confined_run_stmt by blast

lemma reachable_well_formed: "reachable s \<Longrightarrow> well_formed s"
  by (induction rule: reachable.induct) (simp_all add: well_formed_init well_formed_run_stmt)

lemma well_formed_run_stmts: "well_formed s \<Longrightarrow> well_formed (run_stmts cs s)"
  by (induction cs arbitrary: s) (simp_all add: well_formed_run_stmt)

lemma view_frame:
  "well_formed s \<Longrightarrow> target c \<noteq> v \<Longrightarrow> view (run_stmt c s) v = view s v"
  using confined_view [OF _ confined_run_stmt] by metis

lemma view_frames:
  "well_formed s \<Longrightarrow> (\<And>c. c \<in> set cs \<Longrightarrow> target c \<noteq> v) \<Longrightarrow> view (run_stmts cs s) v = view s v"
proof (induction cs arbitrary: s)
  case Nil
  show ?case by simp
next
  case (Cons c cs)
  have "view (run_stmts cs (run_stmt c s)) v = view (run_stmt c s) v"
    using Cons.IH [OF well_formed_run_stmt [OF Cons.prems(1)]] Cons.prems(2) by simp
  also have "\<dots> = view s v"
    using view_frame [OF Cons.prems(1)] Cons.prems(2) by simp
  finally show ?case by simp
qed

text \<open>
  A change in place through \<open>v\<close> shows in the world of \<open>v\<close> as the change itself, and
  \<open>clone\<close> leaves in \<open>world_copy\<close> the clone of the world of \<open>world\<close>.
\<close>

lemma view_Act:
  assumes wf: "well_formed s"
  shows "view (run_stmt (Act v a) s) v
     = (case view s v of Inl e \<Rightarrow> Inl e | Inr w \<Rightarrow> action_sem a w)"
proof (cases "vars s v")
  case (Inl e)
  then show ?thesis by (simp add: view_def)
next
  case (Inr w)
  note sv = Inr
  obtain bs where bs: "load (mem s) (obj_bodies w) = Inr bs"
    and len: "length bs = length (obj_bodies w)"
    and vw: "view s v = Inr \<lparr>ticks = obj_ticks w, bodies = bs\<rparr>"
    using view_Inr [OF wf Inr] by blast
  show ?thesis
  proof (cases "action_sem a \<lparr>ticks = obj_ticks w, bodies = bs\<rparr>")
    case (Inl e)
    have eq: "run_stmt (Act v a) s
        = s\<lparr>mem := store_cells (mem s) (obj_bodies w)
                     (replicate (length (obj_bodies w)) (Poison e)),
            vars := (vars s)(v := Inl e)\<rparr>"
      by (simp add: Inr vw Inl)
    show ?thesis unfolding eq vw by (simp add: view_def Inl)
  next
    case (Inr x')
    have eq: "run_stmt (Act v a) s
        = s\<lparr>mem := store_cells (mem s) (obj_bodies w) (map Body (bodies x')),
            vars := (vars s)(v := Inr (w\<lparr>obj_ticks := ticks x'\<rparr>))\<rparr>"
      by (simp add: sv vw Inr)
    have l: "length (bodies x') = length (obj_bodies w)"
      using action_sem_length [OF Inr] len by simp
    have "load (store_cells (mem s) (obj_bodies w) (map Body (bodies x'))) (obj_bodies w)
        = Inr (bodies x')"
      using load_store_same [OF well_formedD(1) [OF wf sv] l] .
    then show ?thesis unfolding eq vw by (simp add: view_def Inr)
  qed
qed

lemma run_actions_fault: "run_actions as (Inl e) = Inl e"
  by (induction as) simp_all

lemma view_Acts:
  "well_formed s \<Longrightarrow> view (run_stmts (map (Act v) as) s) v = run_actions as (view s v)"
proof (induction as arbitrary: s)
  case Nil
  show ?case by simp
next
  case (Cons a as)
  have "view (run_stmts (map (Act v) as) (run_stmt (Act v a) s)) v
      = run_actions as (view (run_stmt (Act v a) s) v)"
    using Cons.IH [OF well_formed_run_stmt [OF Cons.prems]] .
  then show ?case by (simp add: view_Act [OF Cons.prems] del: run_stmt.simps)
qed

lemma view_Clone:
  assumes "view s Live = Inr w"
  shows "view (run_stmt Clone s) Copy = Inr (PhysicsWorld_clone w)"
proof -
  obtain m' w' where c: "obj_clone (mem s) w = (m', w')" by (cases "obj_clone (mem s) w")
  note e = obj_clone_effect [OF c]
  have eq: "run_stmt Clone s = s\<lparr>mem := m', vars := (vars s)(Copy := Inr w')\<rparr>"
    by (simp add: assms c)
  show ?thesis
    unfolding eq
    by (simp add: view_def e(3) e(5) PhysicsWorld_clone_eq bodies_PhysicsWorld_clone)
qed

lemma predict_loop_world:
  "i \<le> horizon \<Longrightarrow>
   (case predict_loop horizon i s of Inl e \<Rightarrow> Inl e | Inr s' \<Rightarrow> Inr (fst s'))
     = run_actions (replicate (horizon - i) PredictStep) (Inr (fst s))"
proof (induction horizon i s rule: predict_loop.induct)
  case (1 horizon i s)
  show ?case
  proof (cases "i < horizon")
    case True
    then have rep: "replicate (horizon - i) PredictStep
        = PredictStep # replicate (horizon - (i + 1)) PredictStep"
      by (cases "horizon - i") (simp_all add: Suc_diff_Suc)
    have w: "(case predict_iteration s of Inl e \<Rightarrow> Inl e | Inr s' \<Rightarrow> Inr (fst s'))
        = predict_step (fst s)"
      using predict_iteration_world [of "fst s" "snd s"] by simp
    show ?thesis
    proof (cases "predict_iteration s")
      case (Inl e)
      then have "predict_step (fst s) = Inl e" using w by simp
      then show ?thesis
        using True Inl unfolding rep
        by (subst predict_loop.simps) (simp add: run_actions_fault)
    next
      case (Inr s')
      then have c: "predict_step (fst s) = Inr (fst s')" using w by simp
      have "(case predict_loop horizon (i + 1) s' of Inl e \<Rightarrow> Inl e | Inr s'' \<Rightarrow> Inr (fst s''))
          = run_actions (replicate (horizon - (i + 1)) PredictStep) (Inr (fst s'))"
        using True by (intro "1.IH" [OF True Inr]) simp
      then show ?thesis
        using True Inr c unfolding rep by (subst predict_loop.simps) simp
    qed
  next
    case False
    then show ?thesis
      using "1.prems" by (subst predict_loop.simps) simp
  qed
qed

text \<open>
  C10. \<open>removeBody\<close> takes its parameter by value: the call constructs the parameter as
  a new object, and the address of a new object is not the address of any element of a
  vector. So in every state that \<open>main\<close> can reach the loop finds no element to erase:
  the variables hold the objects they held, with the same elements in the same order,
  and both worlds have the tick and the bodies they had, whatever the value of the
  argument, a copy of a body of the world included.
\<close>

theorem removeBody_is_no_op:
  "reachable s \<Longrightarrow>
     vars (run_stmt (RemoveBody v body) s) = vars s
     \<and> (\<forall>v'. view (run_stmt (RemoveBody v body) s) v' = view s v')
     \<and> (\<forall>w. vars s v = Inr w \<longrightarrow>
           snd (alloc (mem s) body) \<notin> set (obj_bodies w)
           \<and> obj_removeBody (mem s, w) body = (fst (alloc (mem s) body), w))"
proof -
  assume r: "reachable s"
  note wf = reachable_well_formed [OF r]
  define m1 where "m1 = (mem s)\<lparr>next_free := next_free (mem s) + 1,
    cells := (cells (mem s))(next_free (mem s) \<mapsto> Body body)\<rparr>"
  have eq: "run_stmt (RemoveBody v body) s = s \<or> run_stmt (RemoveBody v body) s = s\<lparr>mem := m1\<rparr>"
    using run_stmt_RemoveBody [OF wf, of v body] by (cases "vars s v") (simp_all add: m1_def)
  have same: "view (s\<lparr>mem := m1\<rparr>) v' = view s v'" for v'
  proof (cases "vars s v'")
    case (Inl e)
    then show ?thesis by (simp add: view_def)
  next
    case (Inr w')
    have "cells m1 a = cells (mem s) a" if "a \<in> set (obj_bodies w')" for a
      using well_formedD(2) [OF wf Inr that] by (simp add: m1_def)
    then have "load m1 (obj_bodies w') = load (mem s) (obj_bodies w')" by (rule load_cong)
    then show ?thesis using Inr by (simp add: view_def)
  qed
  have a: "vars (run_stmt (RemoveBody v body) s) = vars s" using eq by auto
  have b: "\<forall>v'. view (run_stmt (RemoveBody v body) s) v' = view s v'" using eq same by auto
  have c: "snd (alloc (mem s) body) \<notin> set (obj_bodies w)
      \<and> obj_removeBody (mem s, w) body = (fst (alloc (mem s) body), w)"
    if vw: "vars s v = Inr w" for w
  proof -
    have fresh: "next_free (mem s) \<notin> set (obj_bodies w)"
      using well_formedD(2) [OF wf vw, of "next_free (mem s)"] by auto
    then show ?thesis
      by (simp add: alloc_def obj_removeBody_def obj_removeBody_loop_fresh [OF fresh])
  qed
  show ?thesis using a b c by blast
qed

theorem removeBody_is_no_op_witness:
  "view (run_stmt (RemoveBody Live (PhysicsBody_new \<lparr>vx = 320, vy = 240\<rparr> \<lparr>vx = 40, vy = 0\<rparr> 10))
      (run_stmt (AddBody Live (PhysicsBody_new \<lparr>vx = 320, vy = 60\<rparr> \<lparr>vx = - 400, vy = 0\<rparr> 1))
        (run_stmt (AddBody Live (PhysicsBody_new \<lparr>vx = 320, vy = 240\<rparr> \<lparr>vx = 40, vy = 0\<rparr> 10))
           init))) Live
     = Inr \<lparr>ticks = 0, bodies =
         [PhysicsBody_new \<lparr>vx = 320, vy = 240\<rparr> \<lparr>vx = 40, vy = 0\<rparr> 10,
          PhysicsBody_new \<lparr>vx = 320, vy = 60\<rparr> \<lparr>vx = - 400, vy = 0\<rparr> 1]\<rparr>
   \<and> vars (run_stmt (RemoveBody Live (PhysicsBody_new \<lparr>vx = 320, vy = 240\<rparr> \<lparr>vx = 40, vy = 0\<rparr> 10))
      (run_stmt (AddBody Live (PhysicsBody_new \<lparr>vx = 320, vy = 60\<rparr> \<lparr>vx = - 400, vy = 0\<rparr> 1))
        (run_stmt (AddBody Live (PhysicsBody_new \<lparr>vx = 320, vy = 240\<rparr> \<lparr>vx = 40, vy = 0\<rparr> 10))
           init))) Live
     = Inr \<lparr>obj_ticks = 0, obj_bodies = [0, 1]\<rparr>
   \<and> snd (alloc (mem
      (run_stmt (AddBody Live (PhysicsBody_new \<lparr>vx = 320, vy = 60\<rparr> \<lparr>vx = - 400, vy = 0\<rparr> 1))
        (run_stmt (AddBody Live (PhysicsBody_new \<lparr>vx = 320, vy = 240\<rparr> \<lparr>vx = 40, vy = 0\<rparr> 10))
           init)))
      (PhysicsBody_new \<lparr>vx = 320, vy = 240\<rparr> \<lparr>vx = 40, vy = 0\<rparr> 10)) = 2"
proof -
  define A where "A = PhysicsBody_new \<lparr>vx = 320, vy = 240\<rparr> \<lparr>vx = 40, vy = 0\<rparr> 10"
  define B where "B = PhysicsBody_new \<lparr>vx = 320, vy = 60\<rparr> \<lparr>vx = - 400, vy = 0\<rparr> 1"
  define s0 where "s0 = run_stmt (AddBody Live B) (run_stmt (AddBody Live A) init)"
  have r: "reachable s0"
    unfolding s0_def by (intro reachable.intros)
  have v0: "vars s0 Live = Inr \<lparr>obj_ticks = 0, obj_bodies = [0, 1]\<rparr>"
    by (simp add: s0_def init_def obj_addBody_eq PhysicsWorld_obj_new_def)
  have w0: "view s0 Live = Inr \<lparr>ticks = 0, bodies = [A, B]\<rparr>"
    by (simp add: s0_def init_def obj_addBody_eq PhysicsWorld_obj_new_def view_def)
  have p: "snd (alloc (mem s0) A) = 2"
    by (simp add: s0_def init_def obj_addBody_eq PhysicsWorld_obj_new_def alloc_def)
  note no_op = removeBody_is_no_op [OF r, of Live A]
  have "view (run_stmt (RemoveBody Live A) s0) Live = Inr \<lparr>ticks = 0, bodies = [A, B]\<rparr>"
    using no_op [THEN conjunct2, THEN conjunct1, THEN spec, of Live] w0 by simp
  moreover have "vars (run_stmt (RemoveBody Live A) s0) Live
      = Inr \<lparr>obj_ticks = 0, obj_bodies = [0, 1]\<rparr>"
    using no_op [THEN conjunct1] v0 by simp
  ultimately show ?thesis using p unfolding s0_def A_def B_def by simp
qed

text \<open>
  Called with the address of an element, as a parameter passed by reference would be, the
  same loop erases that element.
\<close>

lemma removeBody_by_address_erases:
  "obj_removeBody_loop 0 \<lparr>obj_ticks = 0, obj_bodies = [0, 1]\<rparr> 0
     = \<lparr>obj_ticks = 0, obj_bodies = [1]\<rparr>"
  using obj_removeBody_loop_element [of "\<lparr>obj_ticks = 0, obj_bodies = [0, 1]\<rparr>" 0 0]
  by (simp add: erase_def)

text \<open>
  C4. In every state that \<open>main\<close> can reach, \<open>world_copy = world.clone()\<close> leaves in
  \<open>world_copy\<close> a world with the tick of \<open>world\<close> and, body by body, the position,
  velocity and mass of \<open>world\<close>, with the acceleration of a newly constructed body;
  \<open>world\<close> is as it was, and the two vectors have no element in common. From then on any
  sequence of statements on \<open>world_copy\<close> (adding or removing a body, setting a position,
  velocity or mass, updating, applying forces, cloning again) leaves \<open>world\<close> as it was,
  and any sequence of statements on \<open>world\<close> leaves \<open>world_copy\<close> as it was. The
  forecast loop of any horizon is such a sequence on \<open>world_copy\<close>: it leaves in
  \<open>world_copy\<close> the world that \<open>predict\<close> computes, and \<open>world\<close> as it was.
\<close>

theorem clone_isolates_worlds:
  "reachable s \<Longrightarrow> view s Live = Inr w \<Longrightarrow>
     view (run_stmt Clone s) Copy = Inr (PhysicsWorld_clone w)
     \<and> ticks (PhysicsWorld_clone w) = ticks w
     \<and> map position (bodies (PhysicsWorld_clone w)) = map position (bodies w)
     \<and> map velocity (bodies (PhysicsWorld_clone w)) = map velocity (bodies w)
     \<and> map mass (bodies (PhysicsWorld_clone w)) = map mass (bodies w)
     \<and> map acceleration (bodies (PhysicsWorld_clone w))
         = replicate (length (bodies w)) Vector2D_default
     \<and> view (run_stmt Clone s) Live = Inr w
     \<and> set (elems (run_stmt Clone s) Copy) \<inter> set (elems (run_stmt Clone s) Live) = {}
     \<and> ((\<forall>c \<in> set cs. target c = Copy) \<longrightarrow>
          view (run_stmts cs (run_stmt Clone s)) Live = Inr w)
     \<and> ((\<forall>c \<in> set cs. target c = Live) \<longrightarrow>
          view (run_stmts cs (run_stmt Clone s)) Copy = Inr (PhysicsWorld_clone w))
     \<and> view (run_stmts (map (Act Copy) as) (run_stmt Clone s)) Copy
         = run_actions as (Inr (PhysicsWorld_clone w))
     \<and> view (run_stmts (replicate horizon (Act Copy PredictStep)) (run_stmt Clone s)) Copy
         = (case predict horizon w of Inl e \<Rightarrow> Inl e | Inr r \<Rightarrow> Inr (fst r))
     \<and> view (run_stmts (replicate horizon (Act Copy PredictStep)) (run_stmt Clone s)) Live
         = Inr w"
proof -
  assume r: "reachable s" and w: "view s Live = Inr w"
  note wf = reachable_well_formed [OF r]
  define s1 where "s1 = run_stmt Clone s"
  have wf1: "well_formed s1" unfolding s1_def by (rule well_formed_run_stmt [OF wf])
  have copy: "view s1 Copy = Inr (PhysicsWorld_clone w)"
    unfolding s1_def by (rule view_Clone [OF w])
  have live: "view s1 Live = Inr w"
    unfolding s1_def using view_frame [OF wf, of Clone Live] w by simp
  have fields: "map position (bodies (PhysicsWorld_clone w)) = map position (bodies w)
      \<and> map velocity (bodies (PhysicsWorld_clone w)) = map velocity (bodies w)
      \<and> map mass (bodies (PhysicsWorld_clone w)) = map mass (bodies w)"
    by (simp add: bodies_PhysicsWorld_clone PhysicsBody_clone_def PhysicsBody_new_def comp_def)
  have acc: "map acceleration (bodies (PhysicsWorld_clone w))
      = replicate (length (bodies w)) Vector2D_default"
    by (simp add: bodies_PhysicsWorld_clone PhysicsBody_clone_def PhysicsBody_new_def
        comp_def map_replicate_const)
  have dis: "set (elems s1 Copy) \<inter> set (elems s1 Live) = {}"
    using well_formed_disjoint [OF wf1, of Copy Live] by simp
  have on_copy: "view (run_stmts cs s1) Live = Inr w" if "\<forall>c \<in> set cs. target c = Copy" for cs
    using view_frames [OF wf1, of cs Live] that live by simp
  have on_live: "view (run_stmts cs s1) Copy = Inr (PhysicsWorld_clone w)"
    if "\<forall>c \<in> set cs. target c = Live" for cs
    using view_frames [OF wf1, of cs Copy] that copy by simp
  have acts: "view (run_stmts (map (Act Copy) as) s1) Copy
      = run_actions as (Inr (PhysicsWorld_clone w))" for as
    using view_Acts [OF wf1, of Copy as] copy by simp
  have rep: "replicate horizon (Act Copy PredictStep)
      = map (Act Copy) (replicate horizon PredictStep)"
    by simp
  have forecast: "view (run_stmts (replicate horizon (Act Copy PredictStep)) s1) Copy
      = (case predict horizon w of Inl e \<Rightarrow> Inl e | Inr r \<Rightarrow> Inr (fst r))"
    unfolding rep acts
    using predict_loop_world [of 0 horizon "(PhysicsWorld_clone w, [])"]
    by (simp add: predict_def)
  have forecast_live: "view (run_stmts (replicate horizon (Act Copy PredictStep)) s1) Live
      = Inr w"
    by (rule on_copy) simp
  show ?thesis
    unfolding s1_def [symmetric]
    using copy live fields acc dis on_copy [of cs] on_live [of cs] acts [of as]
      forecast forecast_live
    by (simp add: ticks_PhysicsWorld_clone)
qed

theorem clone_isolates_worlds_witness:
  "view (run_stmt (Act Live (Gravity GRAVITATIONAL_CONSTANT))
        (run_stmt (AddBody Live (PhysicsBody_new \<lparr>vx = 320, vy = 60\<rparr> \<lparr>vx = - 400, vy = 0\<rparr> 1))
          (run_stmt (AddBody Live (PhysicsBody_new \<lparr>vx = 320, vy = 240\<rparr> \<lparr>vx = 40, vy = 0\<rparr> 10))
             init))) Live
     = Inr \<lparr>ticks = 0, bodies =
         [\<lparr>position = \<lparr>vx = 320, vy = 240\<rparr>, velocity = \<lparr>vx = 40, vy = 0\<rparr>,
            acceleration = \<lparr>vx = 0, vy = - (16675 / 81)\<rparr>, mass = 10\<rparr>,
          \<lparr>position = \<lparr>vx = 320, vy = 60\<rparr>, velocity = \<lparr>vx = - 400, vy = 0\<rparr>,
            acceleration = \<lparr>vx = 0, vy = 166750 / 81\<rparr>, mass = 1\<rparr>]\<rparr>
   \<and> view (run_stmt Clone
       (run_stmt (Act Live (Gravity GRAVITATIONAL_CONSTANT))
        (run_stmt (AddBody Live (PhysicsBody_new \<lparr>vx = 320, vy = 60\<rparr> \<lparr>vx = - 400, vy = 0\<rparr> 1))
          (run_stmt (AddBody Live (PhysicsBody_new \<lparr>vx = 320, vy = 240\<rparr> \<lparr>vx = 40, vy = 0\<rparr> 10))
             init)))) Copy
     = Inr \<lparr>ticks = 0, bodies =
         [\<lparr>position = \<lparr>vx = 320, vy = 240\<rparr>, velocity = \<lparr>vx = 40, vy = 0\<rparr>,
            acceleration = \<lparr>vx = 0, vy = 0\<rparr>, mass = 10\<rparr>,
          \<lparr>position = \<lparr>vx = 320, vy = 60\<rparr>, velocity = \<lparr>vx = - 400, vy = 0\<rparr>,
            acceleration = \<lparr>vx = 0, vy = 0\<rparr>, mass = 1\<rparr>]\<rparr>
   \<and> view (run_stmts
      [Act Copy (SetPosition 1 \<lparr>vx = 7, vy = 7\<rparr>), Act Copy (SetMass 0 5),
       Act Copy (SetVelocity 1 \<lparr>vx = 0, vy = 0\<rparr>), Act Copy (Update (1 / 2))]
      (run_stmt Clone
       (run_stmt (Act Live (Gravity GRAVITATIONAL_CONSTANT))
        (run_stmt (AddBody Live (PhysicsBody_new \<lparr>vx = 320, vy = 60\<rparr> \<lparr>vx = - 400, vy = 0\<rparr> 1))
          (run_stmt (AddBody Live (PhysicsBody_new \<lparr>vx = 320, vy = 240\<rparr> \<lparr>vx = 40, vy = 0\<rparr> 10))
             init))))) Copy
     = Inr \<lparr>ticks = 1, bodies =
         [\<lparr>position = \<lparr>vx = 340, vy = 240\<rparr>, velocity = \<lparr>vx = 40, vy = 0\<rparr>,
            acceleration = \<lparr>vx = 0, vy = 0\<rparr>, mass = 5\<rparr>,
          \<lparr>position = \<lparr>vx = 7, vy = 7\<rparr>, velocity = \<lparr>vx = 0, vy = 0\<rparr>,
            acceleration = \<lparr>vx = 0, vy = 0\<rparr>, mass = 1\<rparr>]\<rparr>
   \<and> view (run_stmts
      [Act Copy (SetPosition 1 \<lparr>vx = 7, vy = 7\<rparr>), Act Copy (SetMass 0 5),
       Act Copy (SetVelocity 1 \<lparr>vx = 0, vy = 0\<rparr>), Act Copy (Update (1 / 2))]
      (run_stmt Clone
       (run_stmt (Act Live (Gravity GRAVITATIONAL_CONSTANT))
        (run_stmt (AddBody Live (PhysicsBody_new \<lparr>vx = 320, vy = 60\<rparr> \<lparr>vx = - 400, vy = 0\<rparr> 1))
          (run_stmt (AddBody Live (PhysicsBody_new \<lparr>vx = 320, vy = 240\<rparr> \<lparr>vx = 40, vy = 0\<rparr> 10))
             init))))) Live
     = Inr \<lparr>ticks = 0, bodies =
         [\<lparr>position = \<lparr>vx = 320, vy = 240\<rparr>, velocity = \<lparr>vx = 40, vy = 0\<rparr>,
            acceleration = \<lparr>vx = 0, vy = - (16675 / 81)\<rparr>, mass = 10\<rparr>,
          \<lparr>position = \<lparr>vx = 320, vy = 60\<rparr>, velocity = \<lparr>vx = - 400, vy = 0\<rparr>,
            acceleration = \<lparr>vx = 0, vy = 166750 / 81\<rparr>, mass = 1\<rparr>]\<rparr>
   \<and> view (run_stmts
      [Act Live (SetMass 0 5), Act Live (Update 1), RemoveBody Live (PhysicsBody_new \<lparr>vx = 320, vy = 60\<rparr> \<lparr>vx = - 400, vy = 0\<rparr> 1),
       AddBody Live (PhysicsBody_new \<lparr>vx = 320, vy = 240\<rparr> \<lparr>vx = 40, vy = 0\<rparr> 10)]
      (run_stmt Clone
       (run_stmt (Act Live (Gravity GRAVITATIONAL_CONSTANT))
        (run_stmt (AddBody Live (PhysicsBody_new \<lparr>vx = 320, vy = 60\<rparr> \<lparr>vx = - 400, vy = 0\<rparr> 1))
          (run_stmt (AddBody Live (PhysicsBody_new \<lparr>vx = 320, vy = 240\<rparr> \<lparr>vx = 40, vy = 0\<rparr> 10))
             init))))) Copy
     = Inr \<lparr>ticks = 0, bodies =
         [\<lparr>position = \<lparr>vx = 320, vy = 240\<rparr>, velocity = \<lparr>vx = 40, vy = 0\<rparr>,
            acceleration = \<lparr>vx = 0, vy = 0\<rparr>, mass = 10\<rparr>,
          \<lparr>position = \<lparr>vx = 320, vy = 60\<rparr>, velocity = \<lparr>vx = - 400, vy = 0\<rparr>,
            acceleration = \<lparr>vx = 0, vy = 0\<rparr>, mass = 1\<rparr>]\<rparr>
   \<and> view (run_stmts (replicate 100 (Act Copy PredictStep))
      (run_stmt Clone
       (run_stmt (Act Live (Gravity GRAVITATIONAL_CONSTANT))
        (run_stmt (AddBody Live (PhysicsBody_new \<lparr>vx = 320, vy = 60\<rparr> \<lparr>vx = - 400, vy = 0\<rparr> 1))
          (run_stmt (AddBody Live (PhysicsBody_new \<lparr>vx = 320, vy = 240\<rparr> \<lparr>vx = 40, vy = 0\<rparr> 10))
             init))))) Live
     = Inr \<lparr>ticks = 0, bodies =
         [\<lparr>position = \<lparr>vx = 320, vy = 240\<rparr>, velocity = \<lparr>vx = 40, vy = 0\<rparr>,
            acceleration = \<lparr>vx = 0, vy = - (16675 / 81)\<rparr>, mass = 10\<rparr>,
          \<lparr>position = \<lparr>vx = 320, vy = 60\<rparr>, velocity = \<lparr>vx = - 400, vy = 0\<rparr>,
            acceleration = \<lparr>vx = 0, vy = 166750 / 81\<rparr>, mass = 1\<rparr>]\<rparr>"
proof -
  define A where "A = PhysicsBody_new \<lparr>vx = 320, vy = 240\<rparr> \<lparr>vx = 40, vy = 0\<rparr> 10"
  define B where "B = PhysicsBody_new \<lparr>vx = 320, vy = 60\<rparr> \<lparr>vx = - 400, vy = 0\<rparr> 1"
  define s00 where "s00 = run_stmt (AddBody Live B) (run_stmt (AddBody Live A) init)"
  define s0 where "s0 = run_stmt (Act Live (Gravity GRAVITATIONAL_CONSTANT)) s00"
  define W0 where "W0 = \<lparr>ticks = 0, bodies =
         [\<lparr>position = \<lparr>vx = 320, vy = 240\<rparr>, velocity = \<lparr>vx = 40, vy = 0\<rparr>,
            acceleration = \<lparr>vx = 0, vy = - (16675 / 81)\<rparr>, mass = 10\<rparr>,
          \<lparr>position = \<lparr>vx = 320, vy = 60\<rparr>, velocity = \<lparr>vx = - 400, vy = 0\<rparr>,
            acceleration = \<lparr>vx = 0, vy = 166750 / 81\<rparr>, mass = 1\<rparr>]\<rparr>"
  define C0 where "C0 = \<lparr>ticks = 0, bodies =
         [\<lparr>position = \<lparr>vx = 320, vy = 240\<rparr>, velocity = \<lparr>vx = 40, vy = 0\<rparr>,
            acceleration = \<lparr>vx = 0, vy = 0\<rparr>, mass = 10\<rparr>,
          \<lparr>position = \<lparr>vx = 320, vy = 60\<rparr>, velocity = \<lparr>vx = - 400, vy = 0\<rparr>,
            acceleration = \<lparr>vx = 0, vy = 0\<rparr>, mass = 1\<rparr>]\<rparr>"
  define as where "as = [SetPosition 1 \<lparr>vx = 7, vy = 7\<rparr>, SetMass 0 5,
    SetVelocity 1 \<lparr>vx = 0, vy = 0\<rparr>, Update (1 / 2)]"
  define ls where "ls = [Act Live (SetMass 0 5), Act Live (Update 1), RemoveBody Live B,
    AddBody Live A]"
  have r00: "reachable s00" unfolding s00_def by (intro reachable.intros)
  have r: "reachable s0" unfolding s0_def by (intro reachable.intros r00)
  have v00: "view s00 Live = Inr \<lparr>ticks = 0, bodies = [A, B]\<rparr>"
    by (simp add: s00_def init_def obj_addBody_eq PhysicsWorld_obj_new_def view_def)
  have g: "applyGravitationalForces GRAVITATIONAL_CONSTANT \<lparr>ticks = 0, bodies = [A, B]\<rparr> = Inr W0"
    by (simp add: applyGravitationalForces_def gravity_outer.simps gravity_inner.simps
        gravity_pair_def A_def B_def W0_def PhysicsBody_new_def Vector2D_default_def
        zero_def applyPair_def applyForce_def vdiv_def vadd_def vneg_def
        pairForce_def Let_def getPosition_def vsub_def magnitude_vertical fdiv_def
        fmul_def normalized_def vscale_def GRAVITATIONAL_CONSTANT_def)
  have w0: "view s0 Live = Inr W0"
    unfolding s0_def view_Act [OF reachable_well_formed [OF r00]] v00 using g by simp
  have c0: "PhysicsWorld_clone W0 = C0"
    by (simp add: PhysicsWorld_clone_eq W0_def C0_def PhysicsBody_clone_def
        PhysicsBody_new_def Vector2D_default_def zero_def)
  note iso = clone_isolates_worlds [OF r w0, of _ as 100]
  have copy: "view (run_stmt Clone s0) Copy = Inr C0"
    using iso [of "[]"] c0 by simp
  have acts: "view (run_stmts (map (Act Copy) as) (run_stmt Clone s0)) Copy
      = run_actions as (Inr C0)"
    using iso [of "[]"] c0 by simp
  have "run_actions as (Inr C0) = Inr \<lparr>ticks = 1, bodies =
         [\<lparr>position = \<lparr>vx = 340, vy = 240\<rparr>, velocity = \<lparr>vx = 40, vy = 0\<rparr>,
            acceleration = \<lparr>vx = 0, vy = 0\<rparr>, mass = 5\<rparr>,
          \<lparr>position = \<lparr>vx = 7, vy = 7\<rparr>, velocity = \<lparr>vx = 0, vy = 0\<rparr>,
            acceleration = \<lparr>vx = 0, vy = 0\<rparr>, mass = 1\<rparr>]\<rparr>"
    by (simp add: as_def C0_def at_body_def setPosition_def setMass_def setVelocity_def
        PhysicsWorld_update_eq PhysicsBody_update_def Let_def vadd_def vscale_def zero_def)
  with acts have changed: "view (run_stmts (map (Act Copy) as) (run_stmt Clone s0)) Copy
      = Inr \<lparr>ticks = 1, bodies =
         [\<lparr>position = \<lparr>vx = 340, vy = 240\<rparr>, velocity = \<lparr>vx = 40, vy = 0\<rparr>,
            acceleration = \<lparr>vx = 0, vy = 0\<rparr>, mass = 5\<rparr>,
          \<lparr>position = \<lparr>vx = 7, vy = 7\<rparr>, velocity = \<lparr>vx = 0, vy = 0\<rparr>,
            acceleration = \<lparr>vx = 0, vy = 0\<rparr>, mass = 1\<rparr>]\<rparr>"
    by simp
  have live: "view (run_stmts (map (Act Copy) as) (run_stmt Clone s0)) Live = Inr W0"
    using iso [of "map (Act Copy) as"] by (simp add: as_def del: run_stmts.simps run_stmt.simps)
  have kept: "view (run_stmts ls (run_stmt Clone s0)) Copy = Inr C0"
    using iso [of ls] c0 by (simp add: ls_def del: run_stmts.simps run_stmt.simps)
  have forecast: "view (run_stmts (replicate 100 (Act Copy PredictStep)) (run_stmt Clone s0)) Live
      = Inr W0"
    using iso [of "[]"] by simp
  show ?thesis
    using w0 copy changed live kept forecast
    unfolding s0_def s00_def as_def ls_def W0_def C0_def A_def B_def
    by (simp del: run_stmts.simps run_stmt.simps)
qed

text \<open>
  Were the vector of \<open>world_copy\<close> to hold the elements of the vector of \<open>world\<close>, a
  change made through \<open>world_copy\<close> would show in \<open>world\<close>.
\<close>

lemma shared_storage_is_observable:
  "view ((run_stmt (AddBody Live PhysicsBody_default) init)
           \<lparr>vars := (\<lambda>v. Inr \<lparr>obj_ticks = 0, obj_bodies = [0]\<rparr>)\<rparr>) Live
     = Inr \<lparr>ticks = 0, bodies = [PhysicsBody_default]\<rparr>
   \<and> view (run_stmt (Act Copy (SetMass 0 5))
        ((run_stmt (AddBody Live PhysicsBody_default) init)
           \<lparr>vars := (\<lambda>v. Inr \<lparr>obj_ticks = 0, obj_bodies = [0]\<rparr>)\<rparr>)) Live
     = Inr \<lparr>ticks = 0, bodies = [setMass PhysicsBody_default 5]\<rparr>"
  by (simp add: init_def obj_addBody_eq PhysicsWorld_obj_new_def view_def at_body_def
      store_cells_def)

section \<open>Frames\<close>

lemma rotate_back: "rotate (rotate p a) (- a) = p"
proof -
  have one: "cos a * cos a + sin a * sin a = 1"
    by (rule sin_cos_squared_add3)
  have "(vx p * cos a - vy p * sin a) * cos a + (vx p * sin a + vy p * cos a) * sin a
      = vx p * (cos a * cos a + sin a * sin a)"
    by (simp only: algebra_simps)
  then have x: "(vx p * cos a - vy p * sin a) * cos a + (vx p * sin a + vy p * cos a) * sin a
      = vx p"
    by (simp only: one mult_1_right)
  have "(vx p * sin a + vy p * cos a) * cos a - (vx p * cos a - vy p * sin a) * sin a
      = vy p * (cos a * cos a + sin a * sin a)"
    by (simp only: algebra_simps)
  then have y: "(vx p * sin a + vy p * cos a) * cos a - (vx p * cos a - vy p * sin a) * sin a
      = vy p"
    by (simp only: one mult_1_right)
  show ?thesis
    using x y by (simp add: rotate_def)
qed

lemma unscale_scale:
  "vx sc \<noteq> 0 \<Longrightarrow> vy sc \<noteq> 0 \<Longrightarrow> unscale_by (scale_by p sc) sc = Inr p"
  by (simp add: unscale_by_def scale_by_def)

lemma vsub_vadd: "vsub (vadd q pos) pos = q"
  by (simp add: vsub_def vadd_def)

lemma level_round_trip:
  "vx sc \<noteq> 0 \<Longrightarrow> vy sc \<noteq> 0 \<Longrightarrow>
   unscale_by (rotate (vsub (vadd (rotate (scale_by p sc) rot) pos) pos) (- rot)) sc = Inr p"
  by (simp add: vsub_vadd rotate_back unscale_scale)

text \<open>
  C7, as amended. For every point and every chain of nested frames, of any depth and with
  any positions and rotations, whose scales have no zero component, converting the point
  to global coordinates and back returns the point; over the reals the round trip is
  exact, so it is within every tolerance.
\<close>

theorem frame_round_trip:
  "nonzero_scales f \<Longrightarrow> getLocalCoordinates f (getGlobalCoordinates f p) = Inr p"
proof (induction f p rule: getGlobalCoordinates.induct)
  case (1 pos rot sc p)
  then show ?case by (simp add: level_round_trip)
next
  case (2 f pos rot sc p)
  then show ?case by (simp add: level_round_trip)
qed

theorem frame_round_trip_witness:
  "depth (Frame2D (Some (Frame2D (Some (Frame2D None \<lparr>vx = 5, vy = - 1\<rparr> 0 \<lparr>vx = 2, vy = 3\<rparr>))
              \<lparr>vx = 0, vy = 7\<rparr> (pi / 2) \<lparr>vx = 1 / 2, vy = 4\<rparr>))
       \<lparr>vx = - 3, vy = 2\<rparr> pi \<lparr>vx = - 1, vy = 5\<rparr>) = 3
   \<and> getGlobalCoordinates
       (Frame2D (Some (Frame2D (Some (Frame2D None \<lparr>vx = 5, vy = - 1\<rparr> 0 \<lparr>vx = 2, vy = 3\<rparr>))
              \<lparr>vx = 0, vy = 7\<rparr> (pi / 2) \<lparr>vx = 1 / 2, vy = 4\<rparr>))
       \<lparr>vx = - 3, vy = 2\<rparr> pi \<lparr>vx = - 1, vy = 5\<rparr>) \<lparr>vx = 1, vy = 2\<rparr>
     = \<lparr>vx = 69, vy = 17\<rparr>
   \<and> getLocalCoordinates
       (Frame2D (Some (Frame2D (Some (Frame2D None \<lparr>vx = 5, vy = - 1\<rparr> 0 \<lparr>vx = 2, vy = 3\<rparr>))
              \<lparr>vx = 0, vy = 7\<rparr> (pi / 2) \<lparr>vx = 1 / 2, vy = 4\<rparr>))
       \<lparr>vx = - 3, vy = 2\<rparr> pi \<lparr>vx = - 1, vy = 5\<rparr>) \<lparr>vx = 69, vy = 17\<rparr>
     = Inr \<lparr>vx = 1, vy = 2\<rparr>"
proof -
  define f where "f = Frame2D (Some (Frame2D (Some (Frame2D None \<lparr>vx = 5, vy = - 1\<rparr> 0 \<lparr>vx = 2, vy = 3\<rparr>))
              \<lparr>vx = 0, vy = 7\<rparr> (pi / 2) \<lparr>vx = 1 / 2, vy = 4\<rparr>))
       \<lparr>vx = - 3, vy = 2\<rparr> pi \<lparr>vx = - 1, vy = 5\<rparr>"
  have nz: "nonzero_scales f" by (simp add: f_def)
  have g: "getGlobalCoordinates f \<lparr>vx = 1, vy = 2\<rparr> = \<lparr>vx = 69, vy = 17\<rparr>"
    by (simp add: f_def scale_by_def rotate_def vadd_def)
  have d: "depth f = 3" by (simp add: f_def)
  show ?thesis
    using frame_round_trip [OF nz, of "\<lparr>vx = 1, vy = 2\<rparr>"] g d unfolding f_def by simp
qed

text \<open>
  C7 as stated fails: a frame whose scale has a zero component maps the points \<open>(1, 1)\<close>
  and \<open>(2, 1)\<close> to one global point, and the conversion back divides by zero.
\<close>

theorem zero_scale_counterexample:
  "getLocalCoordinates (Frame2D None zero 0 \<lparr>vx = 0, vy = 1\<rparr>)
     (getGlobalCoordinates (Frame2D None zero 0 \<lparr>vx = 0, vy = 1\<rparr>) \<lparr>vx = 1, vy = 1\<rparr>)
     = Inl DivisionByZero
   \<and> getGlobalCoordinates (Frame2D None zero 0 \<lparr>vx = 0, vy = 1\<rparr>) \<lparr>vx = 1, vy = 1\<rparr>
     = getGlobalCoordinates (Frame2D None zero 0 \<lparr>vx = 0, vy = 1\<rparr>) \<lparr>vx = 2, vy = 1\<rparr>"
  by (simp add: unscale_by_def scale_by_def)

end
